theory Spec2Isabelle
  imports
    Main
    "HOL-Library.Char_ord"
    "HOL-Library.List_Lexorder"
    "HOL-Library.Multiset"
    "HOL-Library.Sublist"
begin

section \<open>Tisane: random effects, conflict resolution, result casting, formula generation\<close>

text \<open>
  A shallow embedding of the parts of \<^verbatim>\<open>tisane/random_effects.py\<close>,
  \<^verbatim>\<open>tisane/smt/query_manager.py\<close> and \<^verbatim>\<open>tisane/code_generator.py\<close>
  that the specification talks about. Python exceptions are values of the type
  \<open>error\<close>; a function that can raise returns \<open>error + 'a\<close> with \<open>Inl\<close> for the
  exception. A loop that may run forever returns an \<open>option\<close>, \<open>None\<close> meaning that it
  does not return.
\<close>

subsection \<open>Exceptions\<close>

datatype error =
    AssertionError
  | ValueError
  | EOFError
  | IndexError
  | KeyError
  | NotImplementedError
  | Z3Exception

subsection \<open>Variables and random effects (random_effects.py)\<close>

text \<open>
  Modelled from the spec: \<^verbatim>\<open>tisane/variable.py\<close> is not among the sources. A
  variable is referenced by its identity, the \<open>name\<close>; the code under study reads no
  other attribute of a variable.
\<close>

record AbstractVariable =
  name :: string

text \<open>The constructors take \<^verbatim>\<open>iv: Union[AbstractVariable, int]\<close>.\<close>

datatype iv_arg = Var AbstractVariable | IntIv int

text \<open>
  The four classes of \<^verbatim>\<open>random_effects.py\<close>. A slope-intercept pair holds the two
  objects its constructor builds, in the fields \<^verbatim>\<open>random_slope\<close> and
  \<^verbatim>\<open>random_intercept\<close>.
\<close>

datatype random_effect =
    RandomSlope iv_arg AbstractVariable
  | RandomIntercept AbstractVariable
  | CorrelatedRandomSlopeAndIntercept random_effect random_effect
  | UncorrelatedRandomSlopeAndIntercept random_effect random_effect

text \<open>
  \<^verbatim>\<open>CorrelatedRandomSlopeAndIntercept.__init__(self, iv, groups)\<close> and
  \<^verbatim>\<open>UncorrelatedRandomSlopeAndIntercept.__init__(self, iv, groups)\<close>: two
  assignments, no \<^verbatim>\<open>raise\<close> and no \<^verbatim>\<open>assert\<close>. The result type has room for a
  construction error so that "construction fails" can be stated; the body has no
  branch that produces one.
\<close>

definition CorrelatedRandomSlopeAndIntercept_init ::
  "iv_arg \<Rightarrow> AbstractVariable \<Rightarrow> error + random_effect" where
  "CorrelatedRandomSlopeAndIntercept_init iv groups =
     Inr (CorrelatedRandomSlopeAndIntercept (RandomSlope iv groups) (RandomIntercept groups))"

definition UncorrelatedRandomSlopeAndIntercept_init ::
  "iv_arg \<Rightarrow> AbstractVariable \<Rightarrow> error + random_effect" where
  "UncorrelatedRandomSlopeAndIntercept_init iv groups =
     Inr (UncorrelatedRandomSlopeAndIntercept (RandomSlope iv groups) (RandomIntercept groups))"

subsection \<open>Conflict resolution (query_manager.py)\<close>

text \<open>
  \<^verbatim>\<open>update_clauses(self, pushed_constraints, unsat_core, keep_clause)\<close>: first the
  assertion loop over \<^verbatim>\<open>keep_clause\<close>, then the loop that copies every pushed
  constraint except those in the core and not kept. Python's \<^verbatim>\<open>in\<close> is list
  membership.
\<close>

fun verify_keep_clause :: "'f list \<Rightarrow> 'f list \<Rightarrow> error + unit" where
  "verify_keep_clause unsat_core [] = Inr ()"
| "verify_keep_clause unsat_core (c # cs) =
     (if c \<in> set unsat_core then verify_keep_clause unsat_core cs else Inl AssertionError)"

fun copy_constraints :: "'f list \<Rightarrow> 'f list \<Rightarrow> 'f list \<Rightarrow> 'f list \<Rightarrow> 'f list" where
  "copy_constraints unsat_core keep_clause updated_constraints [] = updated_constraints"
| "copy_constraints unsat_core keep_clause updated_constraints (pc # pcs) =
     (if pc \<in> set unsat_core \<and> pc \<notin> set keep_clause
      then copy_constraints unsat_core keep_clause updated_constraints pcs
      else copy_constraints unsat_core keep_clause (updated_constraints @ [pc]) pcs)"

definition update_clauses :: "'f list \<Rightarrow> 'f list \<Rightarrow> 'f list \<Rightarrow> error + 'f list" where
  "update_clauses pushed_constraints unsat_core keep_clause =
     (case verify_keep_clause unsat_core keep_clause of
        Inl e \<Rightarrow> Inl e
      | Inr _ \<Rightarrow> Inr (copy_constraints unsat_core keep_clause [] pushed_constraints))"

text \<open>
  What one call of \<^verbatim>\<open>int(input(...))\<close> yields: an integer, a \<^verbatim>\<open>ValueError\<close> for
  text that is no integer, or an \<^verbatim>\<open>EOFError\<close> at the end of the input. The user is
  the sequence of replies, \<open>inp\<close>, read at position \<open>pos\<close>.
\<close>

datatype reply = Answer int | Unparsable | EndOfInput

text \<open>
  \<^verbatim>\<open>elicit_user_input(self, current_constraints, unsat_core)\<close>: the
  \<^verbatim>\<open>while True\<close> loop. On \<open>-1\<close> the body is \<^verbatim>\<open>pass\<close>, so the loop prompts again;
  on an index in \<^verbatim>\<open>range(len(unsat_core))\<close> the selected clause is appended to the
  empty \<^verbatim>\<open>keep\<close> and the loop is left; anything else raises \<^verbatim>\<open>ValueError\<close>. The
  parameter \<^verbatim>\<open>current_constraints\<close> is never read and is left out. The result
  carries the position of the next unread reply.
\<close>

partial_function (option) elicit_user_input ::
  "(nat \<Rightarrow> reply) \<Rightarrow> nat \<Rightarrow> 'f list \<Rightarrow> (error + 'f list \<times> nat) option" where
  "elicit_user_input inp pos unsat_core =
     (case inp pos of
        EndOfInput \<Rightarrow> Some (Inl EOFError)
      | Unparsable \<Rightarrow> Some (Inl ValueError)
      | Answer idx \<Rightarrow>
          if idx = - 1 then elicit_user_input inp (pos + 1) unsat_core
          else if 0 \<le> idx \<and> idx < int (length unsat_core)
          then Some (Inr ([] @ [unsat_core ! nat idx], pos + 1))
          else Some (Inl ValueError))"

text \<open>
  The z3 solver is external. With the rules it holds fixed, it is represented by
  \<open>chk\<close>, the answer of \<^verbatim>\<open>solver.check(assertions)\<close>, and by \<open>core\<close>, the value of
  \<^verbatim>\<open>solver.unsat_core()\<close> after an unsatisfiable check of those assertions.
\<close>

datatype check_result = sat | unsat | unknown

text \<open>
  \<^verbatim>\<open>check_update_constraints(self, solver, assertions)\<close>. The first argument bounds
  the number of resolution rounds (calls of \<^verbatim>\<open>elicit_user_input\<close>): \<open>None\<close> is
  returned when a further round would be needed and none is left, or when the
  user never answers. The source has no such bound. The re-check after the
  \<^verbatim>\<open>if\<close>/\<^verbatim>\<open>elif\<close>/\<^verbatim>\<open>else\<close> is written once in each branch that reaches it.
\<close>

function check_update_constraints ::
  "nat \<Rightarrow> ('f list \<Rightarrow> check_result) \<Rightarrow> ('f list \<Rightarrow> 'f list) \<Rightarrow> (nat \<Rightarrow> reply) \<Rightarrow> nat \<Rightarrow>
   'f list \<Rightarrow> (error + 'f list \<times> nat) option" where
  "check_update_constraints rounds chk core inp pos assertions =
     (case chk assertions of
        unsat \<Rightarrow>
          (let unsat_core = core assertions in
           if \<not> length unsat_core > 0 then Some (Inl AssertionError)
           else
             (case rounds of
                0 \<Rightarrow> None
              | Suc rounds' \<Rightarrow>
                  (case elicit_user_input inp pos unsat_core of
                     None \<Rightarrow> None
                   | Some (Inl e) \<Rightarrow> Some (Inl e)
                   | Some (Inr (keep_constraint, pos')) \<Rightarrow>
                       (case update_clauses assertions unsat_core keep_constraint of
                          Inl e \<Rightarrow> Some (Inl e)
                        | Inr updated_assertions \<Rightarrow>
                            (case chk updated_assertions of
                               sat \<Rightarrow> Some (Inr (updated_assertions, pos'))
                             | unsat \<Rightarrow>
                                 check_update_constraints rounds' chk core inp pos'
                                   updated_assertions
                             | unknown \<Rightarrow> Some (Inl ValueError))))))
      | sat \<Rightarrow>
          (case chk assertions of
             sat \<Rightarrow> Some (Inr (assertions, pos))
           | unsat \<Rightarrow> check_update_constraints rounds chk core inp pos assertions
           | unknown \<Rightarrow> Some (Inl ValueError))
      | unknown \<Rightarrow> Some (Inl ValueError))"
  by pat_completeness auto
termination
  by (relation "measure (\<lambda>(rounds, chk, core, inp, pos, assertions). rounds)") auto

declare check_update_constraints.simps [simp del]

text \<open>
  \<^verbatim>\<open>solve(self, facts, rules, setting=None)\<close>. The dictionary \<^verbatim>\<open>rules\<close> is the list
  of its items in insertion order. \<open>z3 rs\<close> is the solver after the rules \<open>rs\<close> have
  been added to a fresh \<^verbatim>\<open>Solver()\<close>: its \<^verbatim>\<open>check\<close>, its \<^verbatim>\<open>unsat_core\<close> and the
  \<^verbatim>\<open>model()\<close> it holds after a satisfiable check of the given assertions. Every
  iteration passes the parameter \<^verbatim>\<open>facts\<close> to \<^verbatim>\<open>check_update_constraints\<close>, which
  builds new lists and leaves \<^verbatim>\<open>facts\<close> as it is, and assigns the second component
  of the result to \<^verbatim>\<open>updated_facts\<close>.
\<close>

record ('f, 'm) Solver =
  solver_check :: "'f list \<Rightarrow> check_result"
  solver_unsat_core :: "'f list \<Rightarrow> 'f list"
  solver_model :: "'f list \<Rightarrow> 'm"

fun add_rule_batches ::
  "nat \<Rightarrow> ('r list \<Rightarrow> ('f, 'm) Solver) \<Rightarrow> (nat \<Rightarrow> reply) \<Rightarrow> 'f list \<Rightarrow>
   (string \<times> 'r list) list \<Rightarrow> 'r list \<times> 'f list \<times> nat \<Rightarrow>
   (error + 'r list \<times> 'f list \<times> nat) option" where
  "add_rule_batches rounds z3 inp facts [] (added, updated_facts, pos) =
     Some (Inr (added, updated_facts, pos))"
| "add_rule_batches rounds z3 inp facts ((batch_name, rules) # batches)
     (added, updated_facts, pos) =
     (let s = z3 (added @ rules) in
      case check_update_constraints rounds (solver_check s) (solver_unsat_core s) inp pos facts of
        None \<Rightarrow> None
      | Some (Inl e) \<Rightarrow> Some (Inl e)
      | Some (Inr (updated_facts', pos')) \<Rightarrow>
          add_rule_batches rounds z3 inp facts batches (added @ rules, updated_facts', pos'))"

text \<open>
  After the loop \<^verbatim>\<open>s.model()\<close> is the model of the last check, which was a
  satisfiable check of the returned \<^verbatim>\<open>updated_facts\<close>; with no batch there was no
  check and z3 raises.
\<close>

definition solve ::
  "nat \<Rightarrow> ('r list \<Rightarrow> ('f, 'm) Solver) \<Rightarrow> (nat \<Rightarrow> reply) \<Rightarrow> nat \<Rightarrow> 'f list \<Rightarrow>
   (string \<times> 'r list) list \<Rightarrow> (error + ('m \<times> 'f list) \<times> nat) option" where
  "solve rounds z3 inp pos facts rules =
     (case add_rule_batches rounds z3 inp facts rules ([], [], pos) of
        None \<Rightarrow> None
      | Some (Inl e) \<Rightarrow> Some (Inl e)
      | Some (Inr (added, updated_facts, pos')) \<Rightarrow>
          if rules = [] then Some (Inl Z3Exception)
          else Some (Inr ((solver_model (z3 added) updated_facts, updated_facts), pos')))"

subsection \<open>Result casting (query_manager.py)\<close>

text \<open>
  Python's \<^verbatim>\<open>str.split(sep)\<close> for a separator of one character, and
  \<^verbatim>\<open>str.strip()\<close>, which removes the characters that \<^verbatim>\<open>str.isspace()\<close> accepts.
  A character of a \<open>string\<close> is a code point below 256; among these the white
  space of Python is 0x09 to 0x0D, 0x1C to 0x1F, 0x20, 0x85 and 0xA0.
\<close>

fun py_split :: "char \<Rightarrow> string \<Rightarrow> string list" where
  "py_split sep [] = [[]]"
| "py_split sep (c # cs) =
     (if c = sep then [] # py_split sep cs
      else (case py_split sep cs of
              [] \<Rightarrow> [[c]]
            | w # ws \<Rightarrow> (c # w) # ws))"

definition py_isspace :: "char \<Rightarrow> bool" where
  "py_isspace c \<longleftrightarrow>
     c \<in> set [CHR '' '', CHR 0x09, CHR 0x0A, CHR 0x0B, CHR 0x0C, CHR 0x0D,
              CHR 0x1C, CHR 0x1D, CHR 0x1E, CHR 0x1F, CHR 0x85, CHR 0xA0]"

definition py_strip :: "string \<Rightarrow> string" where
  "py_strip s = rev (dropWhile py_isspace (rev (dropWhile py_isspace s)))"

text \<open>
  \<^verbatim>\<open>parse_facts(fact)\<close>, on the text \<^verbatim>\<open>str(fact)\<close> of the fact, \<open>fact_text\<close>. The dictionary it
  returns is the triple of its entries \<^verbatim>\<open>function\<close>, \<^verbatim>\<open>start\<close>, \<^verbatim>\<open>end\<close>.
  \<^verbatim>\<open>tmp[1]\<close> and \<^verbatim>\<open>variables[1]\<close> raise \<^verbatim>\<open>IndexError\<close> when the list is too short.
\<close>

definition parse_facts :: "string \<Rightarrow> error + string \<times> string \<times> string" where
  "parse_facts fact_text =
     (case py_split CHR ''('' fact_text of
        func_name # tmp1 # _ \<Rightarrow>
          (case py_split CHR '')'' tmp1 of
             [] \<Rightarrow> Inl IndexError
           | inner # _ \<Rightarrow>
               (case py_split CHR '','' inner of
                  v0 # v1 # _ \<Rightarrow> Inr (func_name, py_strip v0, py_strip v1)
                | _ \<Rightarrow> Inl IndexError))
      | _ \<Rightarrow> Inl IndexError)"

text \<open>
  Modelled from the spec: \<^verbatim>\<open>tisane/design.py\<close> is not among the sources. The input
  object is a Design, given by the list \<^verbatim>\<open>get_variables()\<close> returns, or something
  else. \<^verbatim>\<open>get_var_names_to_variables(input_obj)\<close> fills a dictionary from that list
  and leaves it empty for any other input.
\<close>

datatype input_obj = Design "AbstractVariable list" | OtherInput

fun get_var_names_to_variables :: "input_obj \<Rightarrow> (string \<rightharpoonup> AbstractVariable)" where
  "get_var_names_to_variables (Design variables) =
     foldl (\<lambda>var_names_to_variables v. var_names_to_variables(name v \<mapsto> v)) Map.empty variables"
| "get_var_names_to_variables OtherInput = Map.empty"

text \<open>
  The statistical model, with the four attributes that
  \<^verbatim>\<open>generate_statsmodels_formula\<close> reads. Modelled from the spec:
  \<^verbatim>\<open>tisane/statistical_model.py\<close> is not among the sources.
\<close>

record StatisticalModel =
  dependent_variable :: AbstractVariable
  main_effects :: "AbstractVariable list"
  interaction_effects :: "AbstractVariable list"
  random_effects :: "random_effect list"

text \<open>
  The output object, by the \<^verbatim>\<open>isinstance\<close> tests of the loop. The graph is of any
  type \<open>'g\<close>: \<^verbatim>\<open>tisane/graph.py\<close> is not among the sources, and its methods
  \<^verbatim>\<open>cause\<close> and \<^verbatim>\<open>correlate\<close> are parameters.
\<close>

datatype ('g, 'd) output_obj =
    Graph 'g
  | StatisticalModelOut StatisticalModel
  | DesignOut 'd
  | OtherOutput

text \<open>
  The loop of \<^verbatim>\<open>postprocess_query_results\<close> over \<^verbatim>\<open>updated_facts\<close>, each fact
  given by its text. The output object is mutated in place, so the result is the
  output object as the loop leaves it and the exception that ended the loop, if
  any.
\<close>

fun cast_facts ::
  "('g \<Rightarrow> AbstractVariable \<Rightarrow> AbstractVariable \<Rightarrow> 'g) \<Rightarrow>
   ('g \<Rightarrow> AbstractVariable \<Rightarrow> AbstractVariable \<Rightarrow> 'g) \<Rightarrow>
   (string \<rightharpoonup> AbstractVariable) \<Rightarrow> ('g, 'd) output_obj \<Rightarrow> string list \<Rightarrow>
   ('g, 'd) output_obj \<times> error option" where
  "cast_facts cause correlate var_names_to_variables output_obj [] = (output_obj, None)"
| "cast_facts cause correlate var_names_to_variables output_obj (f # fs) =
     (case parse_facts f of
        Inl e \<Rightarrow> (output_obj, Some e)
      | Inr (func_name, start_name, end_name) \<Rightarrow>
          (case output_obj of
             Graph g \<Rightarrow>
               (case var_names_to_variables start_name of
                  None \<Rightarrow> (output_obj, Some KeyError)
                | Some start_var \<Rightarrow>
                    (case var_names_to_variables end_name of
                       None \<Rightarrow> (output_obj, Some KeyError)
                     | Some end_var \<Rightarrow>
                         (let g1 = (if func_name = ''Cause'' then cause g start_var end_var
                                    else if func_name = ''Correlate''
                                    then correlate g start_var end_var
                                    else g);
                              g2 = (if func_name = ''Interaction''
                                    then correlate g1 start_var end_var
                                    else g1)
                          in cast_facts cause correlate var_names_to_variables (Graph g2) fs)))
           | StatisticalModelOut sm \<Rightarrow> (output_obj, Some NotImplementedError)
           | DesignOut d \<Rightarrow> (output_obj, Some NotImplementedError)
           | OtherOutput \<Rightarrow> (output_obj, Some ValueError)))"

text \<open>
  \<^verbatim>\<open>postprocess_query_results(self, model, updated_facts, input_obj, output_obj)\<close>.
  The parameter \<^verbatim>\<open>model\<close> is of any type \<open>'m\<close>; the body never reads it.
\<close>

definition postprocess_query_results ::
  "('g \<Rightarrow> AbstractVariable \<Rightarrow> AbstractVariable \<Rightarrow> 'g) \<Rightarrow>
   ('g \<Rightarrow> AbstractVariable \<Rightarrow> AbstractVariable \<Rightarrow> 'g) \<Rightarrow>
   'm \<Rightarrow> string list \<Rightarrow> input_obj \<Rightarrow> ('g, 'd) output_obj \<Rightarrow>
   ('g, 'd) output_obj \<times> error option" where
  "postprocess_query_results cause correlate model updated_facts input_obj output_obj =
     cast_facts cause correlate (get_var_names_to_variables input_obj) output_obj updated_facts"

text \<open>
  The edge that the specification assigns to a parsed fact, in its words: Cause
  gives a directed causal edge, Correlate or Interaction an undirected
  correlational edge, between the two variables that the registry has under the
  two names. A fact with another predicate gives no edge.
\<close>

definition corresponding_edge ::
  "('g \<Rightarrow> AbstractVariable \<Rightarrow> AbstractVariable \<Rightarrow> 'g) \<Rightarrow>
   ('g \<Rightarrow> AbstractVariable \<Rightarrow> AbstractVariable \<Rightarrow> 'g) \<Rightarrow>
   (string \<rightharpoonup> AbstractVariable) \<Rightarrow> 'g \<Rightarrow> string \<times> string \<times> string \<Rightarrow> 'g" where
  "corresponding_edge cause correlate registry g parsed_fact =
     (case parsed_fact of
        (predicate, start_name, end_name) \<Rightarrow>
          if predicate = ''Cause''
          then cause g (the (registry start_name)) (the (registry end_name))
          else if predicate = ''Correlate'' \<or> predicate = ''Interaction''
          then correlate g (the (registry start_name)) (the (registry end_name))
          else g)"

text \<open>
  The same with the truth value of the fact, in the words of the specification:
  a resolved fact with a true truth value gets the corresponding edge, and no
  edge is added for a fact whose truth value is not true. A resolved fact is
  given by its text and what the text parses to.
\<close>

definition edge_of_resolved_fact ::
  "('g \<Rightarrow> AbstractVariable \<Rightarrow> AbstractVariable \<Rightarrow> 'g) \<Rightarrow>
   ('g \<Rightarrow> AbstractVariable \<Rightarrow> AbstractVariable \<Rightarrow> 'g) \<Rightarrow>
   (string \<rightharpoonup> AbstractVariable) \<Rightarrow> (string \<Rightarrow> bool) \<Rightarrow> 'g \<Rightarrow>
   string \<times> string \<times> string \<times> string \<Rightarrow> 'g" where
  "edge_of_resolved_fact cause correlate registry is_true g resolved_fact =
     (case resolved_fact of
        (fact_text, parsed_fact) \<Rightarrow>
          if is_true fact_text then corresponding_edge cause correlate registry g parsed_fact
          else g)"

subsection \<open>Formula generation (code_generator.py)\<close>

text \<open>
  The two loops that build \<^verbatim>\<open>main_code\<close> and \<^verbatim>\<open>interaction_code\<close>: the first name
  replaces the empty text, every later one is appended after \<^verbatim>\<open>" + "\<close>.
\<close>

fun append_names :: "string \<Rightarrow> string list \<Rightarrow> string" where
  "append_names code [] = code"
| "append_names code (var_name # var_names) =
     (if length code = 0 then append_names var_name var_names
      else append_names (code @ '' + '' @ var_name) var_names)"

text \<open>
  The loop over \<^verbatim>\<open>random_effects\<close>: a \<^verbatim>\<open>RandomSlope\<close> passes, anything else must be
  a \<^verbatim>\<open>RandomIntercept\<close> or the assertion fails. Nothing is appended to
  \<^verbatim>\<open>random_code\<close>.
\<close>

fun check_random_effects :: "random_effect list \<Rightarrow> error + unit" where
  "check_random_effects [] = Inr ()"
| "check_random_effects (RandomSlope iv groups # rcs) = check_random_effects rcs"
| "check_random_effects (RandomIntercept groups # rcs) = check_random_effects rcs"
| "check_random_effects (rc # rcs) = Inl AssertionError"

text \<open>
  \<^verbatim>\<open>generate_statsmodels_formula(statistical_model)\<close>. \<^verbatim>\<open>list.sort()\<close> on texts is
  the lexicographic order of their characters, which is the order of \<open>string\<close> here.
\<close>

definition generate_statsmodels_formula :: "StatisticalModel \<Rightarrow> error + string" where
  "generate_statsmodels_formula statistical_model =
     (let dv_code = name (dependent_variable statistical_model) @ '' ~ '';
          sm_main_effects_names = sort (map name (main_effects statistical_model));
          main_code = append_names [] sm_main_effects_names;
          sm_interaction_effects_names =
            sort (map name (interaction_effects statistical_model));
          interaction_code = append_names [] sm_interaction_effects_names;
          random_code = []
      in case check_random_effects (random_effects statistical_model) of
           Inl e \<Rightarrow> Inl e
         | Inr _ \<Rightarrow>
             (let post_main_connector =
                    (if length main_code > 0 \<and>
                        (length interaction_code > 0 \<or> length random_code > 0)
                     then '' + '' else []);
                  post_interaction_connector =
                    (if length interaction_code > 0 \<and> length random_code > 0
                     then '' + '' else [])
              in Inr ([CHR 0x27] @ dv_code @ main_code @ post_main_connector @
                      interaction_code @ post_interaction_connector @ random_code @
                      [CHR 0x27])))"

subsection \<open>Example inputs\<close>

text \<open>A user who answers \<open>-1\<close> to the first prompt and \<open>0\<close> to every later one.\<close>

definition replies_minus_one_then_zero :: "nat \<Rightarrow> reply" where
  "replies_minus_one_then_zero n = (if n = 0 then Answer (- 1) else Answer 0)"

text \<open>A user who answers \<open>-1\<close> to every prompt.\<close>

definition replies_always_minus_one :: "nat \<Rightarrow> reply" where
  "replies_always_minus_one n = Answer (- 1)"

text \<open>
  Three asserted facts, and a solver whose rules forbid that \<open>HW\<close> both causes and
  correlates with \<open>Math\<close>: it reports the two facts as the conflict core.
\<close>

definition example_facts :: "string list" where
  "example_facts = [''Cause(HW, Math)'', ''Correlate(HW, Math)'', ''Cause(SES, Math)'']"

definition example_chk :: "string list \<Rightarrow> check_result" where
  "example_chk assertions =
     (if ''Cause(HW, Math)'' \<in> set assertions \<and> ''Correlate(HW, Math)'' \<in> set assertions
      then unsat else sat)"

definition example_core :: "string list \<Rightarrow> string list" where
  "example_core assertions = [''Cause(HW, Math)'', ''Correlate(HW, Math)'']"

text \<open>
  The same solver, except that it gives up (\<open>unknown\<close>) once the conflict is
  resolved and \<open>Cause(SES, Math)\<close> is still asserted.
\<close>

definition example_chk_unknown :: "string list \<Rightarrow> check_result" where
  "example_chk_unknown assertions =
     (if ''Cause(HW, Math)'' \<in> set assertions \<and> ''Correlate(HW, Math)'' \<in> set assertions
      then unsat
      else if ''Cause(SES, Math)'' \<in> set assertions then unknown else sat)"

text \<open>
  A solver by the rules it holds: with the rule \<open>Xor\<close> it is \<open>example_chk\<close>, with the
  rule \<open>Hard\<close> it is \<open>example_chk_unknown\<close>, with neither everything is satisfiable.
  Its model is the list of the facts it was checked with.
\<close>

definition example_z3 :: "string list \<Rightarrow> (string, string list) Solver" where
  "example_z3 rules =
     \<lparr>solver_check =
        (\<lambda>assertions.
           if ''Hard'' \<in> set rules then example_chk_unknown assertions
           else if ''Xor(Cause(HW, Math), Correlate(HW, Math))'' \<in> set rules
           then example_chk assertions
           else sat),
      solver_unsat_core = example_core,
      solver_model = (\<lambda>assertions. assertions)\<rparr>"

text \<open>A user who answers \<open>0\<close> to the first prompt and \<open>1\<close> to every later one.\<close>

definition replies_zero_then_one :: "nat \<Rightarrow> reply" where
  "replies_zero_then_one n = (if n = 0 then Answer 0 else Answer 1)"

text \<open>
  A graph that records the calls made on it, one entry for each call of
  \<^verbatim>\<open>cause\<close> or \<^verbatim>\<open>correlate\<close>, with the names of the two variables.
\<close>

definition example_cause ::
  "(string \<times> string \<times> string) list \<Rightarrow> AbstractVariable \<Rightarrow> AbstractVariable \<Rightarrow>
   (string \<times> string \<times> string) list" where
  "example_cause g start_var end_var = g @ [(''cause'', name start_var, name end_var)]"

definition example_correlate ::
  "(string \<times> string \<times> string) list \<Rightarrow> AbstractVariable \<Rightarrow> AbstractVariable \<Rightarrow>
   (string \<times> string \<times> string) list" where
  "example_correlate g start_var end_var = g @ [(''correlate'', name start_var, name end_var)]"

text \<open>The variables of the example of Kreft and de Leeuw that the facts name.\<close>

definition example_design :: input_obj where
  "example_design =
     Design [\<lparr>name = ''Math''\<rparr>, \<lparr>name = ''HW''\<rparr>, \<lparr>name = ''Race''\<rparr>, \<lparr>name = ''SES''\<rparr>]"

text \<open>
  The truth value that a model of \<open>example_z3\<close> gives to a fact: true for the facts
  of the list.
\<close>

definition example_truth_value :: "string list \<Rightarrow> string \<Rightarrow> bool" where
  "example_truth_value mdl fact_text \<longleftrightarrow> fact_text \<in> set mdl"

section \<open>Properties\<close>

subsection \<open>Construction of slope-intercept pairs\<close>

text \<open>
  C1, as the code has it: constructing a correlated or an uncorrelated
  slope-intercept pair succeeds for every \<open>iv\<close> and every \<open>groups\<close>, whatever the main
  effects of any model are (the constructors do not see them), and yields the
  pair of \<open>RandomSlope(iv, groups)\<close> and \<open>RandomIntercept(groups)\<close>.
\<close>

theorem slope_intercept_pair_construction_succeeds:
  "CorrelatedRandomSlopeAndIntercept_init iv groups =
     Inr (CorrelatedRandomSlopeAndIntercept (RandomSlope iv groups) (RandomIntercept groups)) \<and>
   UncorrelatedRandomSlopeAndIntercept_init iv groups =
     Inr (UncorrelatedRandomSlopeAndIntercept (RandomSlope iv groups) (RandomIntercept groups)) \<and>
   (\<nexists>e. CorrelatedRandomSlopeAndIntercept_init iv groups = Inl e) \<and>
   (\<nexists>e. UncorrelatedRandomSlopeAndIntercept_init iv groups = Inl e)"
  by (simp add: CorrelatedRandomSlopeAndIntercept_init_def
      UncorrelatedRandomSlopeAndIntercept_init_def)

text \<open>
  C1 as stated fails: \<open>SES\<close> is not among the main effects of a model whose only
  main effect is \<open>HomeWork\<close>, and both constructions with \<open>iv = SES\<close> succeed.
\<close>

theorem slope_intercept_pair_iv_not_main_effect:
  "Var \<lparr>name = ''SES''\<rparr> \<notin>
     Var ` set (main_effects \<lparr>dependent_variable = \<lparr>name = ''MathAchievement''\<rparr>,
                              main_effects = [\<lparr>name = ''HomeWork''\<rparr>],
                              interaction_effects = [], random_effects = []\<rparr>) \<and>
   CorrelatedRandomSlopeAndIntercept_init (Var \<lparr>name = ''SES''\<rparr>) \<lparr>name = ''School''\<rparr> =
     Inr (CorrelatedRandomSlopeAndIntercept
           (RandomSlope (Var \<lparr>name = ''SES''\<rparr>) \<lparr>name = ''School''\<rparr>)
           (RandomIntercept \<lparr>name = ''School''\<rparr>)) \<and>
   UncorrelatedRandomSlopeAndIntercept_init (Var \<lparr>name = ''SES''\<rparr>) \<lparr>name = ''School''\<rparr> =
     Inr (UncorrelatedRandomSlopeAndIntercept
           (RandomSlope (Var \<lparr>name = ''SES''\<rparr>) \<lparr>name = ''School''\<rparr>)
           (RandomIntercept \<lparr>name = ''School''\<rparr>))"
  by (simp add: CorrelatedRandomSlopeAndIntercept_init_def
      UncorrelatedRandomSlopeAndIntercept_init_def)

subsection \<open>Rewriting the fact set\<close>

lemma copy_constraints_filter:
  "copy_constraints uc kc acc pcs = acc @ filter (\<lambda>pc. \<not> (pc \<in> set uc \<and> pc \<notin> set kc)) pcs"
  by (induction pcs arbitrary: acc) auto

lemma verify_keep_clause_subset:
  "verify_keep_clause uc kc = (if set kc \<subseteq> set uc then Inr () else Inl AssertionError)"
  by (induction kc) auto

lemma update_clauses_eq:
  "update_clauses pushed uc kc =
     (if set kc \<subseteq> set uc then Inr (filter (\<lambda>pc. \<not> (pc \<in> set uc \<and> pc \<notin> set kc)) pushed)
      else Inl AssertionError)"
  by (simp add: update_clauses_def verify_keep_clause_subset copy_constraints_filter)

text \<open>
  C5: \<open>update_clauses\<close> first verifies that every retained clause is a member of
  the conflict core (an \<open>AssertionError\<close> otherwise). Then it returns the pushed
  facts in their order without those that are in the core and not retained: the
  facts of the result are the pushed facts minus (core minus retained), and the
  pushed facts outside the core, like the retained ones, stand in the result as
  they stood in the pushed list.
\<close>

theorem update_clauses_removes_unretained_core:
  "(\<not> set keep_clause \<subseteq> set uc \<longrightarrow>
      update_clauses pushed uc keep_clause = Inl AssertionError) \<and>
   (set keep_clause \<subseteq> set uc \<longrightarrow>
      (\<exists>updated.
         update_clauses pushed uc keep_clause = Inr updated \<and>
         updated = filter (\<lambda>pc. \<not> (pc \<in> set uc \<and> pc \<notin> set keep_clause)) pushed \<and>
         set updated = set pushed - (set uc - set keep_clause) \<and>
         filter (\<lambda>pc. pc \<notin> set uc) updated = filter (\<lambda>pc. pc \<notin> set uc) pushed \<and>
         filter (\<lambda>pc. pc \<in> set keep_clause) updated =
           filter (\<lambda>pc. pc \<in> set keep_clause) pushed))"
proof (intro conjI impI)
  assume "\<not> set keep_clause \<subseteq> set uc"
  then show "update_clauses pushed uc keep_clause = Inl AssertionError"
    by (simp add: update_clauses_eq)
next
  let ?updated = "filter (\<lambda>pc. \<not> (pc \<in> set uc \<and> pc \<notin> set keep_clause)) pushed"
  assume sub: "set keep_clause \<subseteq> set uc"
  then have "update_clauses pushed uc keep_clause = Inr ?updated"
    by (simp add: update_clauses_eq)
  moreover have "set ?updated = set pushed - (set uc - set keep_clause)"
    by auto
  moreover have "filter (\<lambda>pc. pc \<notin> set uc) ?updated = filter (\<lambda>pc. pc \<notin> set uc) pushed"
    by (induction pushed) auto
  moreover have "filter (\<lambda>pc. pc \<in> set keep_clause) ?updated =
      filter (\<lambda>pc. pc \<in> set keep_clause) pushed"
    by (induction pushed) auto
  ultimately show "\<exists>updated.
         update_clauses pushed uc keep_clause = Inr updated \<and>
         updated = filter (\<lambda>pc. \<not> (pc \<in> set uc \<and> pc \<notin> set keep_clause)) pushed \<and>
         set updated = set pushed - (set uc - set keep_clause) \<and>
         filter (\<lambda>pc. pc \<notin> set uc) updated = filter (\<lambda>pc. pc \<notin> set uc) pushed \<and>
         filter (\<lambda>pc. pc \<in> set keep_clause) updated =
           filter (\<lambda>pc. pc \<in> set keep_clause) pushed"
    by blast
qed

theorem update_clauses_removes_unretained_core_witness:
  "update_clauses [''Cause(HW, Math)'', ''Correlate(HW, Math)'', ''Cause(SES, Math)'']
     [''Cause(HW, Math)'', ''Correlate(HW, Math)''] [''Cause(SES, Math)''] = Inl AssertionError \<and>
   update_clauses [''Cause(HW, Math)'', ''Correlate(HW, Math)'', ''Cause(SES, Math)'']
     [''Cause(HW, Math)'', ''Correlate(HW, Math)''] [''Correlate(HW, Math)''] =
     Inr [''Correlate(HW, Math)'', ''Cause(SES, Math)'']"
  using
    update_clauses_removes_unretained_core
      [of "[''Cause(SES, Math)'']" "[''Cause(HW, Math)'', ''Correlate(HW, Math)'']"
          "[''Cause(HW, Math)'', ''Correlate(HW, Math)'', ''Cause(SES, Math)'']"]
    update_clauses_removes_unretained_core
      [of "[''Correlate(HW, Math)'']" "[''Cause(HW, Math)'', ''Correlate(HW, Math)'']"
          "[''Cause(HW, Math)'', ''Correlate(HW, Math)'', ''Cause(SES, Math)'']"]
  by simp

subsection \<open>The conflict resolver\<close>

lemma elicit_user_input_result:
  assumes "elicit_user_input inp pos uc = Some r"
  shows "case r of Inl e \<Rightarrow> True
         | Inr (keep, pos') \<Rightarrow> (\<exists>i<length uc. keep = [uc ! i]) \<and> pos < pos'"
proof (rule elicit_user_input.raw_induct[where P = "\<lambda>inp pos uc r. case r of Inl e \<Rightarrow> True
         | Inr (keep, pos') \<Rightarrow> (\<exists>i<length uc. keep = [uc ! i]) \<and> pos < pos'", OF _ assms])
  fix f :: "(nat \<Rightarrow> reply) \<Rightarrow> nat \<Rightarrow> 'a list \<Rightarrow> (error + 'a list \<times> nat) option"
    and inp pos uc r
  assume IH: "\<And>inp pos uc r. f inp pos uc = Some r \<Longrightarrow>
      (case r of Inl e \<Rightarrow> True
       | Inr (keep, pos') \<Rightarrow> (\<exists>i<length uc. keep = [uc ! i]) \<and> pos < pos')"
    and body: "(case inp pos of
        Answer idx \<Rightarrow>
          if idx = - 1 then f inp (pos + 1) uc
          else if 0 \<le> idx \<and> idx < int (length uc)
          then Some (Inr ([] @ [uc ! nat idx], pos + 1))
          else Some (Inl ValueError)
      | Unparsable \<Rightarrow> Some (Inl ValueError)
      | EndOfInput \<Rightarrow> Some (Inl EOFError)) = Some r"
  show "case r of Inl e \<Rightarrow> True
         | Inr (keep, pos') \<Rightarrow> (\<exists>i<length uc. keep = [uc ! i]) \<and> pos < pos'"
  proof (cases "inp pos")
    case (Answer idx)
    show ?thesis
    proof (cases "idx = - 1")
      case True
      with Answer body have "f inp (pos + 1) uc = Some r" by simp
      from IH[OF this] show ?thesis by (auto split: sum.splits)
    next
      case False
      show ?thesis
      proof (cases "0 \<le> idx \<and> idx < int (length uc)")
        case True
        then have "nat idx < length uc" by linarith
        moreover from True False Answer body
        have "r = Inr ([uc ! nat idx], pos + 1)" by simp
        ultimately show ?thesis by auto
      next
        case out: False
        with False Answer body have "r = Inl ValueError" by auto
        then show ?thesis by simp
      qed
    qed
  next
    case Unparsable
    with body show ?thesis by auto
  next
    case EndOfInput
    with body show ?thesis by auto
  qed
qed

lemma elicit_user_input_returns:
  assumes "inp q \<noteq> Answer (- 1)" "pos \<le> q"
  shows "\<exists>r. elicit_user_input inp pos uc = Some r"
  using assms
proof (induction "q - pos" arbitrary: pos)
  case 0
  then have "inp pos \<noteq> Answer (- 1)" by simp
  then show ?case
    by (subst elicit_user_input.simps) (auto split: reply.splits)
next
  case (Suc d)
  show ?case
  proof (cases "inp pos = Answer (- 1)")
    case True
    from Suc have "d = q - (pos + 1)" "pos + 1 \<le> q" by auto
    from Suc.hyps(1)[OF this(1) Suc.prems(1) this(2)]
    obtain r where "elicit_user_input inp (pos + 1) uc = Some r" by blast
    with True show ?thesis
      by (subst elicit_user_input.simps) simp
  next
    case False
    then show ?thesis
      by (subst elicit_user_input.simps) (auto split: reply.splits)
  qed
qed

lemma elicit_user_input_answers:
  assumes "elicit_user_input inp pos uc = Some r"
  shows "\<exists>q\<ge>pos. inp q \<noteq> Answer (- 1)"
proof (rule elicit_user_input.raw_induct[where P = "\<lambda>inp pos uc r. \<exists>q\<ge>pos. inp q \<noteq> Answer (- 1)",
      OF _ assms])
  fix f :: "(nat \<Rightarrow> reply) \<Rightarrow> nat \<Rightarrow> 'a list \<Rightarrow> (error + 'a list \<times> nat) option"
    and inp pos uc r
  assume IH: "\<And>inp pos uc r. f inp pos uc = Some r \<Longrightarrow> \<exists>q\<ge>pos. inp q \<noteq> Answer (- 1)"
    and body: "(case inp pos of
        Answer idx \<Rightarrow>
          if idx = - 1 then f inp (pos + 1) uc
          else if 0 \<le> idx \<and> idx < int (length uc)
          then Some (Inr ([] @ [uc ! nat idx], pos + 1))
          else Some (Inl ValueError)
      | Unparsable \<Rightarrow> Some (Inl ValueError)
      | EndOfInput \<Rightarrow> Some (Inl EOFError)) = Some r"
  show "\<exists>q\<ge>pos. inp q \<noteq> Answer (- 1)"
  proof (cases "inp pos = Answer (- 1)")
    case True
    with body have "f inp (pos + 1) uc = Some r" by simp
    from IH[OF this] obtain q where "q \<ge> pos + 1" "inp q \<noteq> Answer (- 1)" by blast
    then show ?thesis by (intro exI[of _ q]) simp
  next
    case False
    then show ?thesis by (intro exI[of _ pos]) simp
  qed
qed

lemma elicit_user_input_unanswered:
  "\<forall>q\<ge>pos. inp q = Answer (- 1) \<Longrightarrow> elicit_user_input inp pos uc = None"
  using elicit_user_input_answers[of inp pos uc] by (cases "elicit_user_input inp pos uc") auto

lemma elicit_user_input_never_empty:
  "elicit_user_input inp pos uc \<noteq> Some (Inr ([], pos'))"
  using elicit_user_input_result[of inp pos uc "Inr ([], pos')"] by auto

lemma elicit_user_input_minus_one:
  "inp pos = Answer (- 1) \<Longrightarrow>
     elicit_user_input inp pos uc = elicit_user_input inp (pos + 1) uc"
  by (subst elicit_user_input.simps) simp

text \<open>
  C2 on the code: after the answer \<open>-1\<close> the resolver does not return; it prompts
  again. With the answers \<open>-1\<close>, \<open>0\<close> it returns the first member of the conflict
  core as the retained clause, not the empty list, and with \<open>-1\<close> for ever it never
  returns.
\<close>

theorem elicit_user_input_minus_one_prompts_again:
  "elicit_user_input replies_minus_one_then_zero 0
     [''Cause(HW, Math)'', ''Correlate(HW, Math)''] =
     Some (Inr ([''Cause(HW, Math)''], 2)) \<and>
   elicit_user_input replies_always_minus_one 0
     [''Cause(HW, Math)'', ''Correlate(HW, Math)''] = None"
proof
  show "elicit_user_input replies_minus_one_then_zero 0
     [''Cause(HW, Math)'', ''Correlate(HW, Math)''] =
     Some (Inr ([''Cause(HW, Math)''], 2))"
    by (simp add: elicit_user_input.simps replies_minus_one_then_zero_def)
  show "elicit_user_input replies_always_minus_one 0
     [''Cause(HW, Math)'', ''Correlate(HW, Math)''] = None"
    by (rule elicit_user_input_unanswered) (simp add: replies_always_minus_one_def)
qed

subsection \<open>The conflict-resolution loop\<close>

text \<open>The equation of the loop, branch by branch.\<close>

lemma cuc_sat:
  "chk as = sat \<Longrightarrow> check_update_constraints n chk core inp pos as = Some (Inr (as, pos))"
  by (subst check_update_constraints.simps) simp

lemma cuc_unknown:
  "chk as = unknown \<Longrightarrow> check_update_constraints n chk core inp pos as = Some (Inl ValueError)"
  by (subst check_update_constraints.simps) simp

lemma cuc_unsat_empty_core:
  "chk as = unsat \<Longrightarrow> core as = [] \<Longrightarrow>
     check_update_constraints n chk core inp pos as = Some (Inl AssertionError)"
  by (subst check_update_constraints.simps) simp

lemma cuc_unsat_no_round:
  "chk as = unsat \<Longrightarrow> core as \<noteq> [] \<Longrightarrow>
     check_update_constraints 0 chk core inp pos as = None"
  by (subst check_update_constraints.simps) simp

lemma cuc_unsat_round:
  "chk as = unsat \<Longrightarrow> core as \<noteq> [] \<Longrightarrow>
     check_update_constraints (Suc n) chk core inp pos as =
       (case elicit_user_input inp pos (core as) of
          None \<Rightarrow> None
        | Some (Inl e) \<Rightarrow> Some (Inl e)
        | Some (Inr (keep, pos')) \<Rightarrow>
            (case update_clauses as (core as) keep of
               Inl e \<Rightarrow> Some (Inl e)
             | Inr upd \<Rightarrow>
                 (case chk upd of
                    sat \<Rightarrow> Some (Inr (upd, pos'))
                  | unsat \<Rightarrow> check_update_constraints n chk core inp pos' upd
                  | unknown \<Rightarrow> Some (Inl ValueError))))"
  by (subst check_update_constraints.simps) (simp add: Let_def)

text \<open>A round in which the user selects a clause.\<close>

lemma cuc_unsat_answered:
  assumes "chk as = unsat" "core as \<noteq> []"
    and "elicit_user_input inp pos (core as) = Some (Inr (keep, pos'))"
  shows "\<exists>i<length (core as). keep = [core as ! i] \<and>
     (\<forall>n. check_update_constraints (Suc n) chk core inp pos as =
       (let upd = filter (\<lambda>pc. \<not> (pc \<in> set (core as) \<and> pc \<noteq> core as ! i)) as in
        case chk upd of
          sat \<Rightarrow> Some (Inr (upd, pos'))
        | unsat \<Rightarrow> check_update_constraints n chk core inp pos' upd
        | unknown \<Rightarrow> Some (Inl ValueError)))"
proof -
  from elicit_user_input_result[OF assms(3)]
  obtain i where i: "i < length (core as)" "keep = [core as ! i]" by auto
  then have "set keep \<subseteq> set (core as)" by simp
  then have "update_clauses as (core as) keep =
      Inr (filter (\<lambda>pc. \<not> (pc \<in> set (core as) \<and> pc \<noteq> core as ! i)) as)"
    using i by (simp add: update_clauses_eq)
  with assms i show ?thesis
    by (intro exI[of _ i]) (simp add: cuc_unsat_round Let_def)
qed

text \<open>More rounds allowed do not change a result.\<close>

lemma cuc_more_rounds:
  "check_update_constraints n chk core inp pos as = Some r \<Longrightarrow> n \<le> m \<Longrightarrow>
     check_update_constraints m chk core inp pos as = Some r"
proof (induction n arbitrary: m as pos)
  case 0
  show ?case
  proof (cases "chk as")
    case sat
    with 0 show ?thesis by (simp add: cuc_sat)
  next
    case unsat
    with 0 show ?thesis
      by (cases "core as = []") (simp_all add: cuc_unsat_empty_core cuc_unsat_no_round)
  next
    case unknown
    with 0 show ?thesis by (simp add: cuc_unknown)
  qed
next
  case (Suc n)
  show ?case
  proof (cases "chk as")
    case sat
    with Suc.prems show ?thesis by (simp add: cuc_sat)
  next
    case unknown
    with Suc.prems show ?thesis by (simp add: cuc_unknown)
  next
    case unsat
    show ?thesis
    proof (cases "core as = []")
      case True
      with unsat Suc.prems show ?thesis by (simp add: cuc_unsat_empty_core)
    next
      case False
      from Suc.prems(2) obtain m' where m: "m = Suc m'" "n \<le> m'"
        by (cases m) auto
      from Suc.prems(1) unsat False show ?thesis
        unfolding m
        by (auto simp: cuc_unsat_round Suc.IH[OF _ m(2)]
            split: option.splits sum.splits prod.splits check_result.splits)
    qed
  qed
qed

lemma subseqs_filter_discards:
  assumes "\<forall>as' \<in> set (subseqs as). Q as'"
  shows "\<forall>as' \<in> set (subseqs (filter P as)). Q as'"
proof
  fix as' assume "as' \<in> set (subseqs (filter P as))"
  then have "subseq as' (filter P as)" by simp
  then have "subseq as' as" using subseq_filter_left subseq_order.trans by blast
  with assms show "Q as'" by simp
qed

lemma cuc_terminates_aux:
  assumes user: "\<forall>p. \<exists>q\<ge>p. inp q \<noteq> Answer (- 1)"
  shows "length as \<le> n \<Longrightarrow>
    \<forall>as' \<in> set (subseqs as). chk as' = unsat \<longrightarrow>
       (\<forall>k \<in> set (core as'). \<exists>x \<in> set as'. x \<in> set (core as') \<and> x \<noteq> k) \<Longrightarrow>
    \<exists>r. check_update_constraints n chk core inp pos as = Some r"
proof (induction n arbitrary: as pos)
  case 0
  then have as: "as = []" by simp
  show ?case
  proof (cases "chk as")
    case sat
    then show ?thesis by (simp add: cuc_sat)
  next
    case unknown
    then show ?thesis by (simp add: cuc_unknown)
  next
    case unsat
    with 0(2) as have "core as = []" by (cases "core as") auto
    with unsat show ?thesis by (simp add: cuc_unsat_empty_core)
  qed
next
  case (Suc n)
  let ?Q = "\<lambda>as'. chk as' = unsat \<longrightarrow>
       (\<forall>k \<in> set (core as'). \<exists>x \<in> set as'. x \<in> set (core as') \<and> x \<noteq> k)"
  show ?case
  proof (cases "chk as")
    case sat
    then show ?thesis by (simp add: cuc_sat)
  next
    case unknown
    then show ?thesis by (simp add: cuc_unknown)
  next
    case unsat
    show ?thesis
    proof (cases "core as = []")
      case True
      with unsat show ?thesis by (simp add: cuc_unsat_empty_core)
    next
      case False
      from user obtain q where "q \<ge> pos" "inp q \<noteq> Answer (- 1)" by blast
      from elicit_user_input_returns[of inp q pos "core as", OF this(2) this(1)]
      obtain re where re: "elicit_user_input inp pos (core as) = Some re" by blast
      show ?thesis
      proof (cases re)
        case (Inl e)
        with re unsat False show ?thesis by (simp add: cuc_unsat_round)
      next
        case (Inr kp)
        obtain keep pos' where kp: "kp = (keep, pos')" by (cases kp)
        from cuc_unsat_answered[of chk as core inp pos keep pos', OF unsat False re[unfolded Inr kp]]
        obtain i where i: "i < length (core as)"
          and eq: "check_update_constraints (Suc n) chk core inp pos as =
            (let upd = filter (\<lambda>pc. \<not> (pc \<in> set (core as) \<and> pc \<noteq> core as ! i)) as in
             case chk upd of
               sat \<Rightarrow> Some (Inr (upd, pos'))
             | unsat \<Rightarrow> check_update_constraints n chk core inp pos' upd
             | unknown \<Rightarrow> Some (Inl ValueError))"
          by blast
        let ?upd = "filter (\<lambda>pc. \<not> (pc \<in> set (core as) \<and> pc \<noteq> core as ! i)) as"
        have "?Q as" using Suc.prems(2) subseqs_refl by blast
        with unsat i obtain x where "x \<in> set as" "x \<in> set (core as)" "x \<noteq> core as ! i"
          by (meson nth_mem)
        then have "length ?upd < length as"
          by (intro length_filter_less[of x]) auto
        with Suc.prems(1) have len: "length ?upd \<le> n" by simp
        have Q: "\<forall>as' \<in> set (subseqs ?upd). ?Q as'"
          by (rule subseqs_filter_discards) (rule Suc.prems(2))
        from Suc.IH[OF len Q, of pos'] show ?thesis
          unfolding eq Let_def by (cases "chk ?upd") auto
      qed
    qed
  qed
qed

lemma cuc_rounds_used:
  "\<forall>as' \<in> set (subseqs as). chk as' = unsat \<longrightarrow>
       (\<forall>k \<in> set (core as'). \<exists>x \<in> set as'. x \<in> set (core as') \<and> x \<noteq> k) \<Longrightarrow>
   check_update_constraints n chk core inp pos as = Some (Inr (upd, pos')) \<Longrightarrow>
   length upd \<le> length as \<and>
   check_update_constraints (length as - length upd) chk core inp pos as = Some (Inr (upd, pos'))"
proof (induction n arbitrary: as pos)
  case 0
  show ?case
  proof (cases "chk as")
    case sat
    with 0(2) show ?thesis by (simp add: cuc_sat)
  next
    case unknown
    with 0(2) show ?thesis by (simp add: cuc_unknown)
  next
    case unsat
    with 0(2) show ?thesis
      by (cases "core as = []") (simp_all add: cuc_unsat_empty_core cuc_unsat_no_round)
  qed
next
  case (Suc n)
  let ?Q = "\<lambda>as'. chk as' = unsat \<longrightarrow>
       (\<forall>k \<in> set (core as'). \<exists>x \<in> set as'. x \<in> set (core as') \<and> x \<noteq> k)"
  show ?case
  proof (cases "chk as")
    case sat
    with Suc.prems(2) show ?thesis by (simp add: cuc_sat)
  next
    case unknown
    with Suc.prems(2) show ?thesis by (simp add: cuc_unknown)
  next
    case unsat
    show ?thesis
    proof (cases "core as = []")
      case True
      with unsat Suc.prems(2) show ?thesis by (simp add: cuc_unsat_empty_core)
    next
      case False
      from Suc.prems(2) unsat False
      obtain keep pos1 where re: "elicit_user_input inp pos (core as) = Some (Inr (keep, pos1))"
        by (auto simp: cuc_unsat_round split: option.splits sum.splits)
      let ?res = "Some (Inr (upd, pos')) :: (error + 'a list \<times> nat) option"
      from cuc_unsat_answered[of chk as core inp pos keep pos1, OF unsat False re]
      obtain i where i: "i < length (core as)"
        and eq: "\<And>n. check_update_constraints (Suc n) chk core inp pos as =
            (let upd = filter (\<lambda>pc. \<not> (pc \<in> set (core as) \<and> pc \<noteq> core as ! i)) as in
             case chk upd of
               sat \<Rightarrow> Some (Inr (upd, pos1))
             | unsat \<Rightarrow> check_update_constraints n chk core inp pos1 upd
             | unknown \<Rightarrow> Some (Inl ValueError))"
        by blast
      let ?upd = "filter (\<lambda>pc. \<not> (pc \<in> set (core as) \<and> pc \<noteq> core as ! i)) as"
      have "?Q as" using Suc.prems(1) subseqs_refl by blast
      with unsat i obtain x where "x \<in> set as" "x \<in> set (core as)" "x \<noteq> core as ! i"
        by (meson nth_mem)
      then have less: "length ?upd < length as"
        by (intro length_filter_less[of x]) auto
      have Q: "\<forall>as' \<in> set (subseqs ?upd). ?Q as'"
        by (rule subseqs_filter_discards) (rule Suc.prems(1))
      show ?thesis
      proof (cases "chk ?upd")
        case sat
        with Suc.prems(2) have u: "upd = ?upd" "pos' = pos1" by (simp_all add: eq Let_def)
        with less obtain j where "length as - length upd = Suc j"
          by (cases "length as - length upd") auto
        with sat u less show ?thesis by (simp add: eq Let_def)
      next
        case unknown
        with Suc.prems(2) show ?thesis by (simp add: eq Let_def)
      next
        case unsat2: unsat
        with Suc.prems(2) have "check_update_constraints n chk core inp pos1 ?upd = ?res"
          by (simp add: eq Let_def)
        from Suc.IH[OF Q this] have le: "length upd \<le> length ?upd"
          and run: "check_update_constraints (length ?upd - length upd) chk core inp pos1 ?upd = ?res"
          by simp_all
        from le less obtain j where j: "length as - length upd = Suc j"
          "length ?upd - length upd \<le> j"
          by (cases "length as - length upd") auto
        from cuc_more_rounds[OF run j(2)] unsat2 le less show ?thesis
          by (simp add: j(1) eq Let_def)
      qed
    qed
  qed
qed

text \<open>
  Where a round has nothing to discard the loop makes no progress: with a
  conflict core of one fact, which the user can only retain, the assertions stay
  as they are, and no number of rounds ends the loop.
\<close>

lemma cuc_single_fact_core_no_progress:
  assumes "chk as = unsat" "core as = [k]" "\<forall>p. inp p = Answer 0"
  shows "check_update_constraints n chk core inp pos as = None"
proof (induction n arbitrary: pos)
  case 0
  from assms show ?case by (simp add: cuc_unsat_no_round)
next
  case (Suc n)
  from assms(3) have "elicit_user_input inp pos [k] = Some (Inr ([k], pos + 1))"
    by (subst elicit_user_input.simps) simp
  moreover have "update_clauses as [k] [k] = Inr as"
    by (simp add: update_clauses_eq)
  ultimately show ?case
    using assms(1,2) Suc.IH[of "pos + 1"] by (simp add: cuc_unsat_round)
qed

text \<open>
  C3: let the user give, at every prompt, eventually an answer other than \<open>-1\<close>,
  and let every round discard a contested fact: whenever a list of facts that
  the loop can reach (a subsequence of the initial assertions) is unsatisfiable,
  then whichever member of the conflict core is retained, another member of the
  core is among the asserted facts. Then the loop returns (a result or an
  exception) within as many resolution rounds as there are initial assertions.
  Every round strictly decreases the number of asserted facts: a run that
  returns the facts \<open>updated\<close> needs no more rounds than the number of facts it
  removed, and it removed at least one when the first check was unsatisfiable.
\<close>

theorem check_update_constraints_terminates:
  assumes "\<forall>p. \<exists>q\<ge>p. inp q \<noteq> Answer (- 1)"
    and "\<forall>as \<in> set (subseqs assertions). chk as = unsat \<longrightarrow>
           (\<forall>k \<in> set (core as). \<exists>x \<in> set as. x \<in> set (core as) \<and> x \<noteq> k)"
  shows "(\<exists>r. check_update_constraints (length assertions) chk core inp pos assertions = Some r) \<and>
    (\<forall>n updated pos'.
       check_update_constraints n chk core inp pos assertions = Some (Inr (updated, pos')) \<longrightarrow>
       length updated \<le> length assertions \<and>
       (chk assertions = unsat \<longrightarrow> length updated < length assertions) \<and>
       check_update_constraints (length assertions - length updated) chk core inp pos assertions =
         Some (Inr (updated, pos')))"
proof (intro conjI allI impI)
  show "\<exists>r. check_update_constraints (length assertions) chk core inp pos assertions = Some r"
    using cuc_terminates_aux[OF assms(1) order_refl assms(2)] .
next
  fix n updated pos'
  assume run: "check_update_constraints n chk core inp pos assertions = Some (Inr (updated, pos'))"
  from cuc_rounds_used[OF assms(2) run]
  show le: "length updated \<le> length assertions"
    and used: "check_update_constraints (length assertions - length updated) chk core inp pos
      assertions = Some (Inr (updated, pos'))"
    by simp_all
  assume unsat: "chk assertions = unsat"
  show "length updated < length assertions"
  proof (rule ccontr)
    assume "\<not> length updated < length assertions"
    with le used have "check_update_constraints 0 chk core inp pos assertions =
        Some (Inr (updated, pos'))" by simp
    with unsat show False
      by (cases "core assertions = []") (simp_all add: cuc_unsat_empty_core cuc_unsat_no_round)
  qed
qed

theorem check_update_constraints_terminates_witness:
  "(\<exists>r. check_update_constraints (length example_facts) example_chk example_core
          replies_minus_one_then_zero 0 example_facts = Some r) \<and>
   check_update_constraints (length example_facts) example_chk example_core
     replies_minus_one_then_zero 0 example_facts =
     Some (Inr ([''Cause(HW, Math)'', ''Cause(SES, Math)''], 2)) \<and>
   check_update_constraints 1 example_chk example_core
     replies_minus_one_then_zero 0 example_facts =
     Some (Inr ([''Cause(HW, Math)'', ''Cause(SES, Math)''], 2))"
proof -
  have user: "\<forall>p. \<exists>q\<ge>p. replies_minus_one_then_zero q \<noteq> Answer (- 1)"
  proof
    fix p show "\<exists>q\<ge>p. replies_minus_one_then_zero q \<noteq> Answer (- 1)"
      by (intro exI[of _ "Suc p"]) (simp add: replies_minus_one_then_zero_def)
  qed
  have discards: "\<forall>as \<in> set (subseqs example_facts). example_chk as = unsat \<longrightarrow>
      (\<forall>k \<in> set (example_core as). \<exists>x \<in> set as. x \<in> set (example_core as) \<and> x \<noteq> k)"
    by (simp add: example_facts_def example_chk_def example_core_def Let_def)
  have run: "check_update_constraints (length example_facts) example_chk example_core
     replies_minus_one_then_zero 0 example_facts =
     Some (Inr ([''Cause(HW, Math)'', ''Cause(SES, Math)''], 2))"
    by (simp add: check_update_constraints.simps elicit_user_input.simps update_clauses_def
        example_facts_def example_chk_def example_core_def replies_minus_one_then_zero_def)
  note main = check_update_constraints_terminates[OF user discards, of 0]
  from main have ex: "\<exists>r. check_update_constraints (length example_facts) example_chk example_core
          replies_minus_one_then_zero 0 example_facts = Some r"
    by (rule conjunct1)
  from main run
  have "check_update_constraints
      (length example_facts - length [''Cause(HW, Math)'', ''Cause(SES, Math)''])
      example_chk example_core replies_minus_one_then_zero 0 example_facts =
      Some (Inr ([''Cause(HW, Math)'', ''Cause(SES, Math)''], 2))"
    by blast
  then have "check_update_constraints 1 example_chk example_core
      replies_minus_one_then_zero 0 example_facts =
      Some (Inr ([''Cause(HW, Math)'', ''Cause(SES, Math)''], 2))"
    by (simp add: example_facts_def)
  with ex run show ?thesis by blast
qed

text \<open>A returned list of facts has passed a satisfiable check.\<close>

lemma cuc_returns_sat:
  "check_update_constraints n chk core inp pos as = Some (Inr (upd, pos')) \<Longrightarrow> chk upd = sat"
proof (induction n arbitrary: as pos)
  case 0
  show ?case
  proof (cases "chk as")
    case sat
    with 0 show ?thesis by (simp add: cuc_sat)
  next
    case unknown
    with 0 show ?thesis by (simp add: cuc_unknown)
  next
    case unsat
    with 0 show ?thesis
      by (cases "core as = []") (simp_all add: cuc_unsat_empty_core cuc_unsat_no_round)
  qed
next
  case (Suc n)
  show ?case
  proof (cases "chk as")
    case sat
    with Suc.prems show ?thesis by (simp add: cuc_sat)
  next
    case unknown
    with Suc.prems show ?thesis by (simp add: cuc_unknown)
  next
    case unsat
    show ?thesis
    proof (cases "core as = []")
      case True
      with unsat Suc.prems show ?thesis by (simp add: cuc_unsat_empty_core)
    next
      case False
      from Suc.prems unsat False show ?thesis
        by (auto simp: cuc_unsat_round dest: Suc.IH
            split: option.splits sum.splits prod.splits check_result.splits)
    qed
  qed
qed

text \<open>
  C6: a check that reports \<open>unknown\<close> ends the query with a \<open>ValueError\<close>. For the
  first check of a call this holds with any number of rounds left, zero
  included: neither the user nor the solver is consulted again. For the check
  after a resolution round the same holds. A call that returns facts returns
  facts that the solver found satisfiable, and the exception leaves \<open>solve\<close> as it
  is, whatever batches are still to be added.
\<close>

theorem unknown_solver_state_is_fatal:
  "(chk assertions = unknown \<longrightarrow>
      check_update_constraints n chk core inp pos assertions = Some (Inl ValueError)) \<and>
   (chk assertions = unsat \<and>
    elicit_user_input inp pos (core assertions) = Some (Inr (keep, pos')) \<and>
    update_clauses assertions (core assertions) keep = Inr updated \<and>
    chk updated = unknown \<longrightarrow>
      check_update_constraints (Suc n) chk core inp pos assertions = Some (Inl ValueError)) \<and>
   (check_update_constraints n chk core inp pos assertions = Some (Inr (updated, pos')) \<longrightarrow>
      chk updated = sat) \<and>
   (solver_check (solver_with rules) facts = unknown \<longrightarrow>
      solve n solver_with inp pos facts ((batch_name, rules) # batches) =
        Some (Inl ValueError))"
proof (intro conjI impI)
  assume "chk assertions = unknown"
  then show "check_update_constraints n chk core inp pos assertions = Some (Inl ValueError)"
    by (rule cuc_unknown)
next
  assume a: "chk assertions = unsat \<and>
    elicit_user_input inp pos (core assertions) = Some (Inr (keep, pos')) \<and>
    update_clauses assertions (core assertions) keep = Inr updated \<and>
    chk updated = unknown"
  then have "core assertions \<noteq> []"
    using elicit_user_input_result[of inp pos "core assertions" "Inr (keep, pos')"] by auto
  with a show "check_update_constraints (Suc n) chk core inp pos assertions = Some (Inl ValueError)"
    by (simp add: cuc_unsat_round)
next
  assume "check_update_constraints n chk core inp pos assertions = Some (Inr (updated, pos'))"
  then show "chk updated = sat" by (rule cuc_returns_sat)
next
  assume "solver_check (solver_with rules) facts = unknown"
  then show "solve n solver_with inp pos facts ((batch_name, rules) # batches) =
      Some (Inl ValueError)"
    by (simp add: solve_def cuc_unknown)
qed

theorem unknown_solver_state_is_fatal_witness:
  "check_update_constraints 0 example_chk_unknown example_core replies_minus_one_then_zero 0
     [''Cause(HW, Math)'', ''Cause(SES, Math)''] = Some (Inl ValueError) \<and>
   check_update_constraints 1 example_chk_unknown example_core replies_minus_one_then_zero 0
     example_facts = Some (Inl ValueError) \<and>
   example_chk [''Cause(HW, Math)'', ''Cause(SES, Math)''] = sat \<and>
   solve 0 example_z3 replies_minus_one_then_zero 0 [''Cause(HW, Math)'', ''Cause(SES, Math)'']
     [(''hard_rules'', [''Hard'']), (''graph_rules'', [])] = Some (Inl ValueError)"
proof -
  have 1: "example_chk_unknown [''Cause(HW, Math)'', ''Cause(SES, Math)''] = unknown"
    by (simp add: example_chk_unknown_def)
  have 2: "example_chk_unknown example_facts = unsat \<and>
    elicit_user_input replies_minus_one_then_zero 0 (example_core example_facts) =
      Some (Inr ([''Cause(HW, Math)''], 2)) \<and>
    update_clauses example_facts (example_core example_facts) [''Cause(HW, Math)''] =
      Inr [''Cause(HW, Math)'', ''Cause(SES, Math)''] \<and>
    example_chk_unknown [''Cause(HW, Math)'', ''Cause(SES, Math)''] = unknown"
    by (simp add: example_chk_unknown_def example_facts_def example_core_def
        elicit_user_input.simps replies_minus_one_then_zero_def update_clauses_def)
  have 3: "check_update_constraints 1 example_chk example_core replies_minus_one_then_zero 0
     example_facts = Some (Inr ([''Cause(HW, Math)'', ''Cause(SES, Math)''], 2))"
    by (simp add: check_update_constraints.simps elicit_user_input.simps update_clauses_def
        example_facts_def example_chk_def example_core_def replies_minus_one_then_zero_def)
  have 4: "solver_check (example_z3 [''Hard'']) [''Cause(HW, Math)'', ''Cause(SES, Math)''] =
      unknown"
    by (simp add: example_z3_def example_chk_unknown_def)
  note a = unknown_solver_state_is_fatal
      [of example_chk_unknown "[''Cause(HW, Math)'', ''Cause(SES, Math)'']" 0 example_core
        replies_minus_one_then_zero 0, THEN conjunct1, rule_format, OF 1]
  note b = unknown_solver_state_is_fatal
      [of example_chk_unknown example_facts 0 example_core replies_minus_one_then_zero 0
        "[''Cause(HW, Math)'']" 2 "[''Cause(HW, Math)'', ''Cause(SES, Math)'']",
        THEN conjunct2, THEN conjunct1, rule_format, OF 2]
  note c = unknown_solver_state_is_fatal
      [of example_chk example_facts 1 example_core replies_minus_one_then_zero 0
        "[''Cause(HW, Math)'']" 2 "[''Cause(HW, Math)'', ''Cause(SES, Math)'']",
        THEN conjunct2, THEN conjunct2, THEN conjunct1, rule_format, OF 3]
  note d = unknown_solver_state_is_fatal
      [where solver_with = example_z3 and rules = "[''Hard'']"
        and facts = "[''Cause(HW, Math)'', ''Cause(SES, Math)'']" and n = 0
        and inp = replies_minus_one_then_zero and pos = 0 and batch_name = "''hard_rules''"
        and batches = "[(''graph_rules'', [])]",
        THEN conjunct2, THEN conjunct2, THEN conjunct2, rule_format, OF 4]
  from a b c d show ?thesis by simp
qed

subsection \<open>Adding the rule batches\<close>

lemma add_rule_batches_append:
  "add_rule_batches n solver_with inp facts (bs @ cs) st =
     (case add_rule_batches n solver_with inp facts bs st of
        None \<Rightarrow> None
      | Some (Inl e) \<Rightarrow> Some (Inl e)
      | Some (Inr st') \<Rightarrow> add_rule_batches n solver_with inp facts cs st')"
proof (induction bs arbitrary: st)
  case Nil
  show ?case by (cases st) simp
next
  case (Cons b bs)
  obtain batch_name rules where b: "b = (batch_name, rules)" by (cases b)
  obtain added updated_facts pos where st: "st = (added, updated_facts, pos)" by (cases st)
  show ?case
    unfolding b st
    by (simp add: Cons.IH Let_def split: option.splits sum.splits prod.splits)
qed

lemma add_rule_batches_added:
  "add_rule_batches n solver_with inp facts bs (added, u, p) = Some (Inr (added', u', p')) \<Longrightarrow>
     added' = added @ concat (map snd bs)"
proof (induction bs arbitrary: added u p)
  case Nil
  then show ?case by simp
next
  case (Cons b bs)
  obtain batch_name rules where b: "b = (batch_name, rules)" by (cases b)
  from Cons.prems show ?case
    unfolding b
    by (auto simp: Let_def dest: Cons.IH split: option.splits sum.splits prod.splits)
qed

text \<open>
  C9: in \<open>solve\<close> the check of every batch is run on the input list \<open>facts\<close>. The
  facts that the checks of the batches before it returned (\<open>earlier_updated_facts\<close>)
  do not enter it: of the earlier batches the check sees the rules they added
  and the replies they consumed. The \<open>updated_facts\<close> that \<open>solve\<close> returns are
  those of the check of the last batch.
\<close>

theorem solve_checks_each_batch_with_input_facts:
  "add_rule_batches n solver_with inp facts (before @ (batch_name, rules) # after)
     (added0, updated0, pos) =
     (case add_rule_batches n solver_with inp facts before (added0, updated0, pos) of
        None \<Rightarrow> None
      | Some (Inl e) \<Rightarrow> Some (Inl e)
      | Some (Inr (added, earlier_updated_facts, pos1)) \<Rightarrow>
          (case check_update_constraints n
                  (solver_check (solver_with (added0 @ concat (map snd before) @ rules)))
                  (solver_unsat_core (solver_with (added0 @ concat (map snd before) @ rules)))
                  inp pos1 facts of
             None \<Rightarrow> None
           | Some (Inl e) \<Rightarrow> Some (Inl e)
           | Some (Inr (updated_facts, pos2)) \<Rightarrow>
               add_rule_batches n solver_with inp facts after
                 (added0 @ concat (map snd before) @ rules, updated_facts, pos2))) \<and>
   solve n solver_with inp pos facts (before @ [(batch_name, rules)]) =
     (case add_rule_batches n solver_with inp facts before ([], [], pos) of
        None \<Rightarrow> None
      | Some (Inl e) \<Rightarrow> Some (Inl e)
      | Some (Inr (added, earlier_updated_facts, pos1)) \<Rightarrow>
          (case check_update_constraints n
                  (solver_check (solver_with (concat (map snd before) @ rules)))
                  (solver_unsat_core (solver_with (concat (map snd before) @ rules)))
                  inp pos1 facts of
             None \<Rightarrow> None
           | Some (Inl e) \<Rightarrow> Some (Inl e)
           | Some (Inr (updated_facts, pos2)) \<Rightarrow>
               Some (Inr ((solver_model (solver_with (concat (map snd before) @ rules))
                             updated_facts, updated_facts), pos2))))"
proof
  show "add_rule_batches n solver_with inp facts (before @ (batch_name, rules) # after)
     (added0, updated0, pos) =
     (case add_rule_batches n solver_with inp facts before (added0, updated0, pos) of
        None \<Rightarrow> None
      | Some (Inl e) \<Rightarrow> Some (Inl e)
      | Some (Inr (added, earlier_updated_facts, pos1)) \<Rightarrow>
          (case check_update_constraints n
                  (solver_check (solver_with (added0 @ concat (map snd before) @ rules)))
                  (solver_unsat_core (solver_with (added0 @ concat (map snd before) @ rules)))
                  inp pos1 facts of
             None \<Rightarrow> None
           | Some (Inl e) \<Rightarrow> Some (Inl e)
           | Some (Inr (updated_facts, pos2)) \<Rightarrow>
               add_rule_batches n solver_with inp facts after
                 (added0 @ concat (map snd before) @ rules, updated_facts, pos2)))"
    by (auto simp: add_rule_batches_append Let_def dest!: add_rule_batches_added
        split: option.splits sum.splits prod.splits)
  show "solve n solver_with inp pos facts (before @ [(batch_name, rules)]) =
     (case add_rule_batches n solver_with inp facts before ([], [], pos) of
        None \<Rightarrow> None
      | Some (Inl e) \<Rightarrow> Some (Inl e)
      | Some (Inr (added, earlier_updated_facts, pos1)) \<Rightarrow>
          (case check_update_constraints n
                  (solver_check (solver_with (concat (map snd before) @ rules)))
                  (solver_unsat_core (solver_with (concat (map snd before) @ rules)))
                  inp pos1 facts of
             None \<Rightarrow> None
           | Some (Inl e) \<Rightarrow> Some (Inl e)
           | Some (Inr (updated_facts, pos2)) \<Rightarrow>
               Some (Inr ((solver_model (solver_with (concat (map snd before) @ rules))
                             updated_facts, updated_facts), pos2))))"
    by (auto simp: solve_def add_rule_batches_append Let_def dest!: add_rule_batches_added
        split: option.splits sum.splits prod.splits)
qed


theorem solve_checks_each_batch_with_input_facts_witness:
  "add_rule_batches 1 example_z3 replies_zero_then_one example_facts
     [(''graph_rules'', [''Xor(Cause(HW, Math), Correlate(HW, Math))''])] ([], [], 0) =
     Some (Inr ([''Xor(Cause(HW, Math), Correlate(HW, Math))''],
                [''Cause(HW, Math)'', ''Cause(SES, Math)''], 1)) \<and>
   solve 1 example_z3 replies_zero_then_one 0 example_facts
     ([(''graph_rules'', [''Xor(Cause(HW, Math), Correlate(HW, Math))''])] @
      [(''data_type_rules'', [''NumericDataType(Math)''])]) =
     Some (Inr (([''Correlate(HW, Math)'', ''Cause(SES, Math)''],
                 [''Correlate(HW, Math)'', ''Cause(SES, Math)'']), 2))"
proof -
  have first: "add_rule_batches 1 example_z3 replies_zero_then_one example_facts
     [(''graph_rules'', [''Xor(Cause(HW, Math), Correlate(HW, Math))''])] ([], [], 0) =
     Some (Inr ([''Xor(Cause(HW, Math), Correlate(HW, Math))''],
                [''Cause(HW, Math)'', ''Cause(SES, Math)''], 1))"
    by (simp add: check_update_constraints.simps elicit_user_input.simps update_clauses_def
        example_z3_def example_facts_def example_chk_def example_core_def
        replies_zero_then_one_def)
  have last: "check_update_constraints 1
      (solver_check (example_z3 (concat (map snd
         [(''graph_rules'', [''Xor(Cause(HW, Math), Correlate(HW, Math))''])]) @
         [''NumericDataType(Math)''])))
      (solver_unsat_core (example_z3 (concat (map snd
         [(''graph_rules'', [''Xor(Cause(HW, Math), Correlate(HW, Math))''])]) @
         [''NumericDataType(Math)''])))
      replies_zero_then_one 1 example_facts =
      Some (Inr ([''Correlate(HW, Math)'', ''Cause(SES, Math)''], 2))"
    by (simp add: check_update_constraints.simps elicit_user_input.simps update_clauses_def
        example_z3_def example_facts_def example_chk_def example_core_def
        replies_zero_then_one_def)
  note main = solve_checks_each_batch_with_input_facts
      [where n = 1 and solver_with = example_z3 and inp = replies_zero_then_one and pos = 0
        and facts = example_facts
        and before = "[(''graph_rules'', [''Xor(Cause(HW, Math), Correlate(HW, Math))''])]"
        and batch_name = "''data_type_rules''" and rules = "[''NumericDataType(Math)'']",
        THEN conjunct2]
  have "solve 1 example_z3 replies_zero_then_one 0 example_facts
     ([(''graph_rules'', [''Xor(Cause(HW, Math), Correlate(HW, Math))''])] @
      [(''data_type_rules'', [''NumericDataType(Math)''])]) =
     Some (Inr (([''Correlate(HW, Math)'', ''Cause(SES, Math)''],
                 [''Correlate(HW, Math)'', ''Cause(SES, Math)'']), 2))"
    unfolding main first using last by (simp add: example_z3_def)
  with first show ?thesis by blast
qed

subsection \<open>Result casting\<close>

lemma cast_facts_known_prefix:
  assumes "map parse_facts facts = map Inr parsed"
    and "\<forall>(predicate, start_name, end_name) \<in> set parsed.
           registry start_name \<noteq> None \<and> registry end_name \<noteq> None"
  shows "cast_facts cause correlate registry (Graph g) (facts @ later) =
     cast_facts cause correlate registry
       (Graph (foldl (corresponding_edge cause correlate registry) g parsed)) later"
  using assms
proof (induction facts arbitrary: parsed g)
  case Nil
  then show ?case by simp
next
  case (Cons f fs)
  from Cons.prems(1) obtain p ps where parsed: "parsed = p # ps"
    and f: "parse_facts f = Inr p" and fs: "map parse_facts fs = map Inr ps"
    by (cases parsed) auto
  obtain predicate start_name end_name where p: "p = (predicate, start_name, end_name)"
    by (cases p)
  from Cons.prems(2) parsed p obtain start_var end_var
    where vars: "registry start_name = Some start_var" "registry end_name = Some end_var"
    by auto
  from Cons.prems(2) parsed
  have known: "\<forall>(predicate, start_name, end_name) \<in> set ps.
           registry start_name \<noteq> None \<and> registry end_name \<noteq> None"
    by simp
  show ?case
    using f p vars Cons.IH[OF fs known]
    by (simp add: parsed corresponding_edge_def Let_def)
qed

lemma parse_example_facts:
  "parse_facts ''Cause(HW, Math)'' = Inr (''Cause'', ''HW'', ''Math'')"
  "parse_facts ''Correlate(Race, Math)'' = Inr (''Correlate'', ''Race'', ''Math'')"
  "parse_facts ''Interaction(HW, SES)'' = Inr (''Interaction'', ''HW'', ''SES'')"
  "parse_facts ''Nests(HW, Math)'' = Inr (''Nests'', ''HW'', ''Math'')"
  "parse_facts ''Cause(Age, Math)'' = Inr (''Cause'', ''Age'', ''Math'')"
  "parse_facts ''Cause(SES, Math)'' = Inr (''Cause'', ''SES'', ''Math'')"
  by (simp_all add: parse_facts_def py_strip_def py_isspace_def)

lemma example_registry:
  "get_var_names_to_variables example_design ''HW'' = Some \<lparr>name = ''HW''\<rparr>"
  "get_var_names_to_variables example_design ''Math'' = Some \<lparr>name = ''Math''\<rparr>"
  "get_var_names_to_variables example_design ''Race'' = Some \<lparr>name = ''Race''\<rparr>"
  "get_var_names_to_variables example_design ''SES'' = Some \<lparr>name = ''SES''\<rparr>"
  "get_var_names_to_variables example_design ''Age'' = None"
  by (simp_all add: example_design_def)


text \<open>
  What \<open>solve\<close> returns: facts that passed a satisfiable check of the solver
  with all rules added, and the model of that check. For a solver whose models
  satisfy the assumptions of a satisfiable check, every returned fact is true in
  the returned model.
\<close>

lemma add_rule_batches_sat:
  "add_rule_batches n solver_with inp facts bs (added, u, p) = Some (Inr (added', u', p')) \<Longrightarrow>
   bs \<noteq> [] \<Longrightarrow> solver_check (solver_with added') u' = sat"
proof (induction bs arbitrary: added u p)
  case Nil
  then show ?case by simp
next
  case (Cons b bs)
  obtain batch_name rules where b: "b = (batch_name, rules)" by (cases b)
  from Cons.prems(1) obtain u1 p1
    where first: "check_update_constraints n (solver_check (solver_with (added @ rules)))
        (solver_unsat_core (solver_with (added @ rules))) inp p facts = Some (Inr (u1, p1))"
      and rest: "add_rule_batches n solver_with inp facts bs (added @ rules, u1, p1) =
        Some (Inr (added', u', p'))"
    unfolding b by (auto simp: Let_def split: option.splits sum.splits prod.splits)
  show ?case
  proof (cases "bs = []")
    case True
    with rest have "added' = added @ rules" "u' = u1" by simp_all
    with cuc_returns_sat[OF first] show ?thesis by simp
  next
    case False
    from Cons.IH[OF rest False] show ?thesis .
  qed
qed

lemma solve_result_true:
  assumes sound: "\<forall>rs as. solver_check (solver_with rs) as = sat \<longrightarrow>
      (\<forall>f \<in> set as. truth_value (solver_model (solver_with rs) as) f)"
    and run: "solve n solver_with inp pos facts batches = Some (Inr ((mdl, updated_facts), pos'))"
  shows "\<forall>f \<in> set updated_facts. truth_value mdl f"
proof -
  from run obtain added
    where batches: "add_rule_batches n solver_with inp facts batches ([], [], pos) =
        Some (Inr (added, updated_facts, pos'))"
      and ne: "batches \<noteq> []"
      and mdl: "mdl = solver_model (solver_with added) updated_facts"
    by (auto simp: solve_def split: option.splits sum.splits prod.splits if_splits)
  from add_rule_batches_sat[OF batches ne] sound mdl show ?thesis by blast
qed

text \<open>Where every fact is true, the test of the truth value changes nothing.\<close>

lemma edges_of_true_facts:
  assumes "\<forall>f \<in> set facts. is_true f" "length parsed = length facts"
  shows "foldl (edge_of_resolved_fact cause correlate registry is_true) g (zip facts parsed) =
     foldl (corresponding_edge cause correlate registry) g parsed"
  using assms
proof (induction facts arbitrary: parsed g)
  case Nil
  then show ?case by simp
next
  case (Cons f fs)
  then obtain p ps where "parsed = p # ps" by (cases parsed) auto
  with Cons show ?case by (simp add: edge_of_resolved_fact_def)
qed


text \<open>
  C4: result casting receives the resolved facts together with the model of
  the satisfiable check that had them as assumptions, so every resolved fact is
  true in the model (\<open>truth_value\<close> is the truth value that a model gives to a
  fact). On such an input, with a graph as the output object and facts whose
  texts parse and whose names the registry of the input design knows, casting
  adds, fact by fact in the order of the list, exactly the corresponding edge
  for a fact that is true and has the predicate Cause (\<open>cause\<close>), Correlate or
  Interaction (\<open>correlate\<close>), between the two variables looked up by name, and no
  edge for a fact that is not true or has another predicate. A fact that names
  an unknown variable ends the casting with a \<open>KeyError\<close>.
\<close>

theorem postprocess_graph_edges:
  "(\<forall>f \<in> set updated_facts. truth_value mdl f) \<and>
   map parse_facts updated_facts = map Inr parsed \<and>
   (\<forall>(predicate, start_name, end_name) \<in> set parsed.
       get_var_names_to_variables input_obj start_name \<noteq> None \<and>
       get_var_names_to_variables input_obj end_name \<noteq> None) \<longrightarrow>
     postprocess_query_results cause correlate mdl updated_facts input_obj (Graph g) =
       (Graph (foldl (edge_of_resolved_fact cause correlate
                       (get_var_names_to_variables input_obj) (truth_value mdl)) g
                 (zip updated_facts parsed)), None) \<and>
     (\<forall>predicate start_name end_name later.
        parse_facts f = Inr (predicate, start_name, end_name) \<and>
        (get_var_names_to_variables input_obj start_name = None \<or>
         get_var_names_to_variables input_obj end_name = None) \<longrightarrow>
        postprocess_query_results cause correlate mdl (updated_facts @ f # later) input_obj
          (Graph g) =
          (Graph (foldl (edge_of_resolved_fact cause correlate
                          (get_var_names_to_variables input_obj) (truth_value mdl)) g
                    (zip updated_facts parsed)),
           Some KeyError))"
proof (intro conjI impI allI)
  assume a: "(\<forall>f \<in> set updated_facts. truth_value mdl f) \<and>
   map parse_facts updated_facts = map Inr parsed \<and>
   (\<forall>(predicate, start_name, end_name) \<in> set parsed.
       get_var_names_to_variables input_obj start_name \<noteq> None \<and>
       get_var_names_to_variables input_obj end_name \<noteq> None)"
  then have true: "\<forall>f \<in> set updated_facts. truth_value mdl f"
    and parse: "map parse_facts updated_facts = map Inr parsed"
    and known: "\<forall>(predicate, start_name, end_name) \<in> set parsed.
       get_var_names_to_variables input_obj start_name \<noteq> None \<and>
       get_var_names_to_variables input_obj end_name \<noteq> None"
    by blast+
  from parse have "length parsed = length updated_facts"
    by (metis length_map)
  from edges_of_true_facts[OF true this]
  have edges: "foldl (edge_of_resolved_fact cause correlate
        (get_var_names_to_variables input_obj) (truth_value mdl)) g (zip updated_facts parsed) =
      foldl (corresponding_edge cause correlate (get_var_names_to_variables input_obj)) g parsed"
    .
  from cast_facts_known_prefix[OF parse known, of cause correlate g "[]"]
  show "postprocess_query_results cause correlate mdl updated_facts input_obj (Graph g) =
       (Graph (foldl (edge_of_resolved_fact cause correlate
                       (get_var_names_to_variables input_obj) (truth_value mdl)) g
                 (zip updated_facts parsed)), None)"
    by (simp add: postprocess_query_results_def edges)
  fix predicate start_name end_name later
  assume b: "parse_facts f = Inr (predicate, start_name, end_name) \<and>
        (get_var_names_to_variables input_obj start_name = None \<or>
         get_var_names_to_variables input_obj end_name = None)"
  from cast_facts_known_prefix[OF parse known, of cause correlate g "f # later"] b
  show "postprocess_query_results cause correlate mdl (updated_facts @ f # later) input_obj
          (Graph g) =
          (Graph (foldl (edge_of_resolved_fact cause correlate
                          (get_var_names_to_variables input_obj) (truth_value mdl)) g
                    (zip updated_facts parsed)),
           Some KeyError)"
    by (auto simp: postprocess_query_results_def edges split: option.splits)
qed


theorem postprocess_graph_edges_witness:
  "solve 1 example_z3 replies_zero_then_one 0 example_facts
     [(''graph_rules'', [''Xor(Cause(HW, Math), Correlate(HW, Math))''])] =
     Some (Inr (([''Cause(HW, Math)'', ''Cause(SES, Math)''],
                 [''Cause(HW, Math)'', ''Cause(SES, Math)'']), 1)) \<and>
   postprocess_query_results example_cause example_correlate
     [''Cause(HW, Math)'', ''Cause(SES, Math)''] [''Cause(HW, Math)'', ''Cause(SES, Math)'']
     example_design (Graph [] :: ((string \<times> string \<times> string) list, unit) output_obj) =
     (Graph [(''cause'', ''HW'', ''Math''), (''cause'', ''SES'', ''Math'')], None) \<and>
   \<not> example_truth_value [''Cause(HW, Math)'', ''Cause(SES, Math)''] ''Correlate(HW, Math)'' \<and>
   postprocess_query_results example_cause example_correlate
     [''Cause(HW, Math)'', ''Correlate(Race, Math)'', ''Interaction(HW, SES)'',
      ''Nests(HW, Math)'']
     [''Cause(HW, Math)'', ''Correlate(Race, Math)'', ''Interaction(HW, SES)'',
      ''Nests(HW, Math)'']
     example_design (Graph [] :: ((string \<times> string \<times> string) list, unit) output_obj) =
     (Graph [(''cause'', ''HW'', ''Math''), (''correlate'', ''Race'', ''Math''),
             (''correlate'', ''HW'', ''SES'')], None) \<and>
   postprocess_query_results example_cause example_correlate
     [''Cause(HW, Math)'', ''Correlate(Race, Math)'', ''Interaction(HW, SES)'',
      ''Nests(HW, Math)'']
     ([''Cause(HW, Math)'', ''Correlate(Race, Math)'', ''Interaction(HW, SES)'',
       ''Nests(HW, Math)''] @ ''Cause(Age, Math)'' # [''Cause(SES, Math)''])
     example_design (Graph [] :: ((string \<times> string \<times> string) list, unit) output_obj) =
     (Graph [(''cause'', ''HW'', ''Math''), (''correlate'', ''Race'', ''Math''),
             (''correlate'', ''HW'', ''SES'')], Some KeyError)"
proof -
  let ?resolved = "[''Cause(HW, Math)'', ''Cause(SES, Math)'']"
  let ?resolved_parsed = "[(''Cause'', ''HW'', ''Math''), (''Cause'', ''SES'', ''Math'')]"
  let ?facts = "[''Cause(HW, Math)'', ''Correlate(Race, Math)'', ''Interaction(HW, SES)'',
      ''Nests(HW, Math)'']"
  let ?parsed = "[(''Cause'', ''HW'', ''Math''), (''Correlate'', ''Race'', ''Math''),
      (''Interaction'', ''HW'', ''SES''), (''Nests'', ''HW'', ''Math'')]"
  have solved: "solve 1 example_z3 replies_zero_then_one 0 example_facts
     [(''graph_rules'', [''Xor(Cause(HW, Math), Correlate(HW, Math))''])] =
     Some (Inr ((?resolved, ?resolved), 1))"
    by (simp add: solve_def check_update_constraints.simps elicit_user_input.simps
        update_clauses_def example_z3_def example_facts_def example_chk_def example_core_def
        replies_zero_then_one_def)
  have removed: "\<not> example_truth_value ?resolved ''Correlate(HW, Math)''"
    by (simp add: example_truth_value_def)
  have hyp1: "(\<forall>f \<in> set ?resolved. example_truth_value ?resolved f) \<and>
    map parse_facts ?resolved = map Inr ?resolved_parsed \<and>
    (\<forall>(predicate, start_name, end_name) \<in> set ?resolved_parsed.
        get_var_names_to_variables example_design start_name \<noteq> None \<and>
        get_var_names_to_variables example_design end_name \<noteq> None)"
    by (simp add: parse_example_facts example_registry example_truth_value_def)
  have hyp2: "(\<forall>f \<in> set ?facts. example_truth_value ?facts f) \<and>
    map parse_facts ?facts = map Inr ?parsed \<and>
    (\<forall>(predicate, start_name, end_name) \<in> set ?parsed.
        get_var_names_to_variables example_design start_name \<noteq> None \<and>
        get_var_names_to_variables example_design end_name \<noteq> None)"
    by (simp add: parse_example_facts example_registry example_truth_value_def)
  have unknown_name: "parse_facts ''Cause(Age, Math)'' = Inr (''Cause'', ''Age'', ''Math'') \<and>
    (get_var_names_to_variables example_design ''Age'' = None \<or>
     get_var_names_to_variables example_design ''Math'' = None)"
    by (simp add: parse_example_facts example_registry)
  have edges1: "foldl (edge_of_resolved_fact example_cause example_correlate
      (get_var_names_to_variables example_design) (example_truth_value ?resolved)) []
      (zip ?resolved ?resolved_parsed) =
      [(''cause'', ''HW'', ''Math''), (''cause'', ''SES'', ''Math'')]"
    by (simp add: edge_of_resolved_fact_def corresponding_edge_def example_registry
        example_cause_def example_correlate_def example_truth_value_def)
  have edges2: "foldl (edge_of_resolved_fact example_cause example_correlate
      (get_var_names_to_variables example_design) (example_truth_value ?facts)) []
      (zip ?facts ?parsed) =
      [(''cause'', ''HW'', ''Math''), (''correlate'', ''Race'', ''Math''),
       (''correlate'', ''HW'', ''SES'')]"
    by (simp add: edge_of_resolved_fact_def corresponding_edge_def example_registry
        example_cause_def example_correlate_def example_truth_value_def)
  note main1 = postprocess_graph_edges
      [where updated_facts = ?resolved and parsed = ?resolved_parsed
        and input_obj = example_design and cause = example_cause
        and correlate = example_correlate and mdl = ?resolved
        and truth_value = example_truth_value and g = "[]",
        THEN mp, OF hyp1, THEN conjunct1]
  note main2 = postprocess_graph_edges
      [where updated_facts = ?facts and parsed = ?parsed and input_obj = example_design
        and cause = example_cause and correlate = example_correlate and mdl = ?facts
        and truth_value = example_truth_value and g = "[]" and f = "''Cause(Age, Math)''",
        THEN mp, OF hyp2]
  from solved removed main1 main2[THEN conjunct1]
    main2[THEN conjunct2, rule_format, OF unknown_name]
  show ?thesis
    unfolding edges1 edges2 by blast
qed

text \<open>
  C7: when the output object is a statistical model, result casting leaves it
  as it was given, with nothing populated. The call fails with the first
  resolved fact: with \<open>NotImplementedError\<close>, or with the exception of
  \<open>parse_facts\<close> when the text of that fact does not parse. It returns normally
  only when there is no resolved fact at all.
\<close>

theorem postprocess_statistical_model_not_populated:
  "fst (postprocess_query_results cause correlate mdl updated_facts input_obj
          (StatisticalModelOut sm)) = StatisticalModelOut sm \<and>
   (snd (postprocess_query_results cause correlate mdl updated_facts input_obj
          (StatisticalModelOut sm)) = None \<longleftrightarrow> updated_facts = []) \<and>
   (\<forall>f fs. updated_facts = f # fs \<longrightarrow>
      postprocess_query_results cause correlate mdl updated_facts input_obj
        (StatisticalModelOut sm) =
        (StatisticalModelOut sm,
         case parse_facts f of Inl e \<Rightarrow> Some e | Inr parsed \<Rightarrow> Some NotImplementedError))"
  by (cases updated_facts)
    (auto simp: postprocess_query_results_def split: sum.splits prod.splits)

theorem postprocess_statistical_model_not_populated_witness:
  "postprocess_query_results example_cause example_correlate () [''Cause(HW, Math)'']
     example_design
     (StatisticalModelOut \<lparr>dependent_variable = \<lparr>name = ''Math''\<rparr>, main_effects = [],
        interaction_effects = [], random_effects = []\<rparr>
      :: ((string \<times> string \<times> string) list, unit) output_obj) =
     (StatisticalModelOut \<lparr>dependent_variable = \<lparr>name = ''Math''\<rparr>, main_effects = [],
        interaction_effects = [], random_effects = []\<rparr>, Some NotImplementedError)"
  using postprocess_statistical_model_not_populated
    [where updated_facts = "[''Cause(HW, Math)'']" and cause = example_cause
      and correlate = example_correlate and mdl = "()" and input_obj = example_design
      and sm = "\<lparr>dependent_variable = \<lparr>name = ''Math''\<rparr>, main_effects = [],
        interaction_effects = [], random_effects = []\<rparr>",
      THEN conjunct2, THEN conjunct2, rule_format, of "''Cause(HW, Math)''" "[]"]
  by (simp add: parse_example_facts)

subsection \<open>The statsmodels formula\<close>

lemma append_names_nonempty:
  "code \<noteq> [] \<Longrightarrow> append_names code ns = code @ concat (map (\<lambda>n. '' + '' @ n) ns)"
  by (induction ns arbitrary: code) auto

lemma append_names_empty:
  "append_names [] ns =
     (case dropWhile (\<lambda>n. n = []) ns of
        [] \<Rightarrow> []
      | n # later \<Rightarrow> n @ concat (map (\<lambda>n. '' + '' @ n) later))"
proof (induction ns)
  case Nil
  show ?case by simp
next
  case (Cons a ns)
  show ?case
  proof (cases "a = []")
    case True
    with Cons show ?thesis by simp
  next
    case False
    have app: "((@) '' + '') = (\<lambda>n. CHR '' '' # CHR ''+'' # CHR '' '' # n)"
      by (rule ext) simp
    from False append_names_nonempty[of a ns] show ?thesis by (simp add: app)
  qed
qed

lemma check_random_effects_ok:
  "check_random_effects rcs =
     (if \<forall>rc \<in> set rcs. (\<exists>iv groups. rc = RandomSlope iv groups) \<or>
                           (\<exists>groups. rc = RandomIntercept groups)
      then Inr () else Inl AssertionError)"
  by (induction rcs rule: check_random_effects.induct) auto


lemma generate_statsmodels_formula_eq:
  "generate_statsmodels_formula sm =
     (case check_random_effects (random_effects sm) of
        Inl e \<Rightarrow> Inl e
      | Inr u \<Rightarrow>
          Inr ([CHR 0x27] @ name (dependent_variable sm) @ '' ~ '' @
               append_names [] (sort (map name (main_effects sm))) @
               (if append_names [] (sort (map name (main_effects sm))) \<noteq> [] \<and>
                   append_names [] (sort (map name (interaction_effects sm))) \<noteq> []
                then '' + '' else []) @
               append_names [] (sort (map name (interaction_effects sm))) @ [CHR 0x27]))"
  by (simp add: generate_statsmodels_formula_def Let_def split: sum.splits)

text \<open>
  C8: in a formula that \<open>generate_statsmodels_formula\<close> returns, the terms of the
  main effects are the names of the stored main effects in ascending order (the
  order of \<open>list.sort()\<close> on texts: lexicographic by character code), joined by
  \<open>" + "\<close>, and likewise the terms of the interaction effects. The order in which
  the effects are stored does not matter: two models with the same dependent
  variable and random effects, and the same main and interaction effects in any
  order, yield the same result.
\<close>

theorem formula_effects_in_alphabetical_order:
  "(generate_statsmodels_formula sm = Inr formula \<longrightarrow>
      (\<exists>main_names interaction_names main_code interaction_code.
         sorted main_names \<and> mset main_names = mset (map name (main_effects sm)) \<and>
         sorted interaction_names \<and>
         mset interaction_names = mset (map name (interaction_effects sm)) \<and>
         main_code =
           (case dropWhile (\<lambda>n. n = []) main_names of
              [] \<Rightarrow> []
            | n # later \<Rightarrow> n @ concat (map (\<lambda>n. '' + '' @ n) later)) \<and>
         interaction_code =
           (case dropWhile (\<lambda>n. n = []) interaction_names of
              [] \<Rightarrow> []
            | n # later \<Rightarrow> n @ concat (map (\<lambda>n. '' + '' @ n) later)) \<and>
         formula =
           [CHR 0x27] @ name (dependent_variable sm) @ '' ~ '' @ main_code @
           (if main_code \<noteq> [] \<and> interaction_code \<noteq> [] then '' + '' else []) @
           interaction_code @ [CHR 0x27])) \<and>
   (dependent_variable sm' = dependent_variable sm \<and>
    mset (main_effects sm') = mset (main_effects sm) \<and>
    mset (interaction_effects sm') = mset (interaction_effects sm) \<and>
    random_effects sm' = random_effects sm \<longrightarrow>
      generate_statsmodels_formula sm' = generate_statsmodels_formula sm)"
proof (intro conjI impI)
  assume gen: "generate_statsmodels_formula sm = Inr formula"
  let ?m = "sort (map name (main_effects sm))"
  let ?i = "sort (map name (interaction_effects sm))"
  from gen have "formula =
      [CHR 0x27] @ name (dependent_variable sm) @ '' ~ '' @ append_names [] ?m @
      (if append_names [] ?m \<noteq> [] \<and> append_names [] ?i \<noteq> [] then '' + '' else []) @
      append_names [] ?i @ [CHR 0x27]"
    by (auto simp: generate_statsmodels_formula_eq split: sum.splits)
  then show "\<exists>main_names interaction_names main_code interaction_code.
         sorted main_names \<and> mset main_names = mset (map name (main_effects sm)) \<and>
         sorted interaction_names \<and>
         mset interaction_names = mset (map name (interaction_effects sm)) \<and>
         main_code =
           (case dropWhile (\<lambda>n. n = []) main_names of
              [] \<Rightarrow> []
            | n # later \<Rightarrow> n @ concat (map (\<lambda>n. '' + '' @ n) later)) \<and>
         interaction_code =
           (case dropWhile (\<lambda>n. n = []) interaction_names of
              [] \<Rightarrow> []
            | n # later \<Rightarrow> n @ concat (map (\<lambda>n. '' + '' @ n) later)) \<and>
         formula =
           [CHR 0x27] @ name (dependent_variable sm) @ '' ~ '' @ main_code @
           (if main_code \<noteq> [] \<and> interaction_code \<noteq> [] then '' + '' else []) @
           interaction_code @ [CHR 0x27]"
    by (intro exI[of _ ?m] exI[of _ ?i] exI[of _ "append_names [] ?m"]
        exI[of _ "append_names [] ?i"])
      (simp add: append_names_empty[symmetric])
next
  assume same: "dependent_variable sm' = dependent_variable sm \<and>
    mset (main_effects sm') = mset (main_effects sm) \<and>
    mset (interaction_effects sm') = mset (interaction_effects sm) \<and>
    random_effects sm' = random_effects sm"
  then have "mset (map name (main_effects sm')) = mset (map name (main_effects sm))"
    and "mset (map name (interaction_effects sm')) = mset (map name (interaction_effects sm))"
    by (metis mset_map)+
  then have sorted_names:
    "sort (map name (main_effects sm')) = sort (map name (main_effects sm))"
    "sort (map name (interaction_effects sm')) = sort (map name (interaction_effects sm))"
    by (auto intro!: properties_for_sort)
  from same have others: "dependent_variable sm' = dependent_variable sm"
    "random_effects sm' = random_effects sm"
    by simp_all
  show "generate_statsmodels_formula sm' = generate_statsmodels_formula sm"
    by (simp only: generate_statsmodels_formula_eq sorted_names others)
qed


theorem formula_effects_in_alphabetical_order_witness:
  "generate_statsmodels_formula
     \<lparr>dependent_variable = \<lparr>name = ''Math''\<rparr>,
      main_effects = [\<lparr>name = ''SES''\<rparr>, \<lparr>name = ''HomeWork''\<rparr>, \<lparr>name = ''Race''\<rparr>],
      interaction_effects = [\<lparr>name = ''SES*HomeWork''\<rparr>, \<lparr>name = ''HomeWork*Race''\<rparr>],
      random_effects = []\<rparr> =
     Inr (CHR 0x27 # ''Math ~ HomeWork + Race + SES + HomeWork*Race + SES*HomeWork'' @
          [CHR 0x27]) \<and>
   generate_statsmodels_formula
     \<lparr>dependent_variable = \<lparr>name = ''Math''\<rparr>,
      main_effects = [\<lparr>name = ''Race''\<rparr>, \<lparr>name = ''SES''\<rparr>, \<lparr>name = ''HomeWork''\<rparr>],
      interaction_effects = [\<lparr>name = ''HomeWork*Race''\<rparr>, \<lparr>name = ''SES*HomeWork''\<rparr>],
      random_effects = []\<rparr> =
     Inr (CHR 0x27 # ''Math ~ HomeWork + Race + SES + HomeWork*Race + SES*HomeWork'' @
          [CHR 0x27])"
proof -
  let ?sm = "\<lparr>dependent_variable = \<lparr>name = ''Math''\<rparr>,
      main_effects = [\<lparr>name = ''SES''\<rparr>, \<lparr>name = ''HomeWork''\<rparr>, \<lparr>name = ''Race''\<rparr>],
      interaction_effects = [\<lparr>name = ''SES*HomeWork''\<rparr>, \<lparr>name = ''HomeWork*Race''\<rparr>],
      random_effects = []\<rparr>"
  let ?sm' = "\<lparr>dependent_variable = \<lparr>name = ''Math''\<rparr>,
      main_effects = [\<lparr>name = ''Race''\<rparr>, \<lparr>name = ''SES''\<rparr>, \<lparr>name = ''HomeWork''\<rparr>],
      interaction_effects = [\<lparr>name = ''HomeWork*Race''\<rparr>, \<lparr>name = ''SES*HomeWork''\<rparr>],
      random_effects = []\<rparr>"
  have formula: "generate_statsmodels_formula ?sm =
     Inr (CHR 0x27 # ''Math ~ HomeWork + Race + SES + HomeWork*Race + SES*HomeWork'' @
          [CHR 0x27])"
    by (simp add: generate_statsmodels_formula_def)
  have same: "dependent_variable ?sm' = dependent_variable ?sm \<and>
    mset (main_effects ?sm') = mset (main_effects ?sm) \<and>
    mset (interaction_effects ?sm') = mset (interaction_effects ?sm) \<and>
    random_effects ?sm' = random_effects ?sm"
    by simp
  from formula_effects_in_alphabetical_order
      [where sm = ?sm and sm' = ?sm', THEN conjunct2, rule_format, OF same] formula
  show ?thesis by simp
qed

text \<open>
  C10, as the code has it: for two models that agree on the dependent variable,
  the main effects and the interaction effects, and whose random effects are all
  random slopes or random intercepts, the function returns the same formula,
  the one of the model without random effects. A random effect of another kind
  (a slope-intercept pair) fails the assertion of the loop over the random
  effects.
\<close>

theorem formula_ignores_slopes_and_intercepts:
  "dependent_variable sm' = dependent_variable sm \<and>
   main_effects sm' = main_effects sm \<and>
   interaction_effects sm' = interaction_effects sm \<longrightarrow>
     ((\<forall>rc \<in> set (random_effects sm) \<union> set (random_effects sm').
          (\<exists>iv groups. rc = RandomSlope iv groups) \<or> (\<exists>groups. rc = RandomIntercept groups)) \<longrightarrow>
        generate_statsmodels_formula sm' = generate_statsmodels_formula sm \<and>
        generate_statsmodels_formula sm =
          generate_statsmodels_formula (sm\<lparr>random_effects := []\<rparr>) \<and>
        (\<exists>formula. generate_statsmodels_formula sm = Inr formula)) \<and>
     ((\<exists>rc \<in> set (random_effects sm).
          (\<forall>iv groups. rc \<noteq> RandomSlope iv groups) \<and>
          (\<forall>groups. rc \<noteq> RandomIntercept groups)) \<longrightarrow>
        generate_statsmodels_formula sm = Inl AssertionError)"
proof (intro conjI impI)
  assume same: "dependent_variable sm' = dependent_variable sm \<and>
   main_effects sm' = main_effects sm \<and>
   interaction_effects sm' = interaction_effects sm"
  {
    assume ok: "\<forall>rc \<in> set (random_effects sm) \<union> set (random_effects sm').
          (\<exists>iv groups. rc = RandomSlope iv groups) \<or> (\<exists>groups. rc = RandomIntercept groups)"
    then have c: "check_random_effects (random_effects sm) = Inr ()"
      "check_random_effects (random_effects sm') = Inr ()"
      by (simp_all add: check_random_effects_ok)
    with same show "generate_statsmodels_formula sm' = generate_statsmodels_formula sm"
      by (simp add: generate_statsmodels_formula_eq)
    from c show "generate_statsmodels_formula sm =
          generate_statsmodels_formula (sm\<lparr>random_effects := []\<rparr>)"
      by (simp add: generate_statsmodels_formula_eq)
    from c show "\<exists>formula. generate_statsmodels_formula sm = Inr formula"
      by (simp add: generate_statsmodels_formula_eq)
  }
  assume "\<exists>rc \<in> set (random_effects sm).
          (\<forall>iv groups. rc \<noteq> RandomSlope iv groups) \<and>
          (\<forall>groups. rc \<noteq> RandomIntercept groups)"
  then have "check_random_effects (random_effects sm) = Inl AssertionError"
    by (auto simp: check_random_effects_ok)
  then show "generate_statsmodels_formula sm = Inl AssertionError"
    by (simp add: generate_statsmodels_formula_eq)
qed

theorem formula_ignores_slopes_and_intercepts_witness:
  "generate_statsmodels_formula
     \<lparr>dependent_variable = \<lparr>name = ''Math''\<rparr>, main_effects = [\<lparr>name = ''HomeWork''\<rparr>],
      interaction_effects = [],
      random_effects = [RandomSlope (Var \<lparr>name = ''HomeWork''\<rparr>) \<lparr>name = ''School''\<rparr>,
                        RandomIntercept \<lparr>name = ''School''\<rparr>]\<rparr> =
     Inr (CHR 0x27 # ''Math ~ HomeWork'' @ [CHR 0x27]) \<and>
   generate_statsmodels_formula
     \<lparr>dependent_variable = \<lparr>name = ''Math''\<rparr>, main_effects = [\<lparr>name = ''HomeWork''\<rparr>],
      interaction_effects = [],
      random_effects = [RandomIntercept \<lparr>name = ''School''\<rparr>]\<rparr> =
     Inr (CHR 0x27 # ''Math ~ HomeWork'' @ [CHR 0x27]) \<and>
   generate_statsmodels_formula
     \<lparr>dependent_variable = \<lparr>name = ''Math''\<rparr>, main_effects = [\<lparr>name = ''HomeWork''\<rparr>],
      interaction_effects = [],
      random_effects = [UncorrelatedRandomSlopeAndIntercept
                          (RandomSlope (Var \<lparr>name = ''HomeWork''\<rparr>) \<lparr>name = ''School''\<rparr>)
                          (RandomIntercept \<lparr>name = ''School''\<rparr>)]\<rparr> =
     Inl AssertionError"
proof -
  let ?sm = "\<lparr>dependent_variable = \<lparr>name = ''Math''\<rparr>, main_effects = [\<lparr>name = ''HomeWork''\<rparr>],
      interaction_effects = [],
      random_effects = [RandomIntercept \<lparr>name = ''School''\<rparr>]\<rparr>"
  let ?sm' = "\<lparr>dependent_variable = \<lparr>name = ''Math''\<rparr>, main_effects = [\<lparr>name = ''HomeWork''\<rparr>],
      interaction_effects = [],
      random_effects = [RandomSlope (Var \<lparr>name = ''HomeWork''\<rparr>) \<lparr>name = ''School''\<rparr>,
                        RandomIntercept \<lparr>name = ''School''\<rparr>]\<rparr>"
  let ?bad = "\<lparr>dependent_variable = \<lparr>name = ''Math''\<rparr>, main_effects = [\<lparr>name = ''HomeWork''\<rparr>],
      interaction_effects = [],
      random_effects = [UncorrelatedRandomSlopeAndIntercept
                          (RandomSlope (Var \<lparr>name = ''HomeWork''\<rparr>) \<lparr>name = ''School''\<rparr>)
                          (RandomIntercept \<lparr>name = ''School''\<rparr>)]\<rparr>"
  have same: "dependent_variable ?sm' = dependent_variable ?sm \<and>
    main_effects ?sm' = main_effects ?sm \<and> interaction_effects ?sm' = interaction_effects ?sm"
    by simp
  have ok: "\<forall>rc \<in> set (random_effects ?sm) \<union> set (random_effects ?sm').
      (\<exists>iv groups. rc = RandomSlope iv groups) \<or> (\<exists>groups. rc = RandomIntercept groups)"
    by simp
  have bad: "\<exists>rc \<in> set (random_effects ?bad).
          (\<forall>iv groups. rc \<noteq> RandomSlope iv groups) \<and>
          (\<forall>groups. rc \<noteq> RandomIntercept groups)"
    by simp
  have formula: "generate_statsmodels_formula ?sm =
      Inr (CHR 0x27 # ''Math ~ HomeWork'' @ [CHR 0x27])"
    by (simp add: generate_statsmodels_formula_def)
  from formula_ignores_slopes_and_intercepts
      [where sm = ?sm and sm' = ?sm', THEN mp, OF same, THEN conjunct1, THEN mp, OF ok]
    formula_ignores_slopes_and_intercepts
      [where sm = ?bad and sm' = ?bad, THEN mp, OF conjI[OF refl conjI[OF refl refl]],
        THEN conjunct2, THEN mp, OF bad]
    formula
  show ?thesis by simp
qed

text \<open>
  C10 as stated fails: two models that differ in their random effects only, one
  with none and one with a correlated slope-intercept pair. The first yields a
  formula, the second fails the assertion of the loop over the random effects.
\<close>

theorem formula_depends_on_random_effects:
  "generate_statsmodels_formula
     \<lparr>dependent_variable = \<lparr>name = ''Math''\<rparr>, main_effects = [\<lparr>name = ''HomeWork''\<rparr>],
      interaction_effects = [], random_effects = []\<rparr> =
     Inr (CHR 0x27 # ''Math ~ HomeWork'' @ [CHR 0x27]) \<and>
   generate_statsmodels_formula
     \<lparr>dependent_variable = \<lparr>name = ''Math''\<rparr>, main_effects = [\<lparr>name = ''HomeWork''\<rparr>],
      interaction_effects = [],
      random_effects = [CorrelatedRandomSlopeAndIntercept
                          (RandomSlope (Var \<lparr>name = ''HomeWork''\<rparr>) \<lparr>name = ''School''\<rparr>)
                          (RandomIntercept \<lparr>name = ''School''\<rparr>)]\<rparr> =
     Inl AssertionError"
  by (simp add: generate_statsmodels_formula_def)

end
